theory Spec2Isabelle
  imports Complex_Main "HOL-Library.Log_Nat" "HOL-Library.Sublist"
begin

section \<open>The simulation request client of docs/app.js\<close>

text \<open>
  The click handler of \<^verbatim>\<open>docs/app.js\<close> reads 25 form controls, posts them as JSON,
  and renders the reply: a metrics report and two histograms. The handler is embedded as a
  function from the browser (the page's nodes, the form, Plotly, the server's answer and the
  engine's locale) to the list of effects it performs on the page, in order, up to the
  statement that ends the run. Everything the handler calls from the
  ECMAScript library (\<^verbatim>\<open>parseFloat\<close>, \<^verbatim>\<open>parseInt\<close>, \<^verbatim>\<open>JSON.stringify\<close>,
  \<^verbatim>\<open>padEnd\<close>, \<^verbatim>\<open>includes\<close>, \<^verbatim>\<open>toFixed\<close>, \<^verbatim>\<open>Math.round\<close>, \<^verbatim>\<open>trim\<close>,
  \<^verbatim>\<open>filter\<close>) is written out as the language standard defines it.

  A JavaScript string is a \<^typ>\<open>string\<close>: one \<^typ>\<open>char\<close> per UTF-16 code unit, for code
  units below 256. Text outside Latin-1 is not modelled.
\<close>

subsection \<open>Strings\<close>

definition newline :: string where
  "newline = [CHR 0x0A]"

definition dquote :: string where
  "dquote = [CHR 0x22]"

text \<open>The white space and line terminators of ECMAScript that are below 256.\<close>

definition is_white_space :: "char \<Rightarrow> bool" where
  "is_white_space c =
     (c \<in> set [CHR 0x09, CHR 0x0A, CHR 0x0B, CHR 0x0C, CHR 0x0D, CHR 0x20, CHR 0xA0])"

definition trim_start :: "string \<Rightarrow> string" where
  "trim_start s = dropWhile is_white_space s"

definition trim :: "string \<Rightarrow> string" where
  "trim s = rev (trim_start (rev (trim_start s)))"

text \<open>\<^verbatim>\<open>s.includes(pat)\<close>: \<open>pat\<close> occurs in \<open>s\<close> as a contiguous run.\<close>

definition str_includes :: "string \<Rightarrow> string \<Rightarrow> bool" where
  "str_includes s pat = sublist pat s"

text \<open>\<^verbatim>\<open>s.padEnd(n)\<close>: spaces are appended up to length \<open>n\<close>; a longer string is kept.\<close>

definition padEnd :: "string \<Rightarrow> nat \<Rightarrow> string" where
  "padEnd s n = s @ replicate (n - length s) (CHR '' '')"

fun join :: "string \<Rightarrow> string list \<Rightarrow> string" where
  "join sep [] = []"
| "join sep [s] = s"
| "join sep (s # t # ss) = s @ sep @ join sep (t # ss)"

subsection \<open>Numbers\<close>

text \<open>
  A Number is an IEEE 754 binary64 value: not-a-number, an infinity, negative zero, or a
  finite value given by the rational it denotes (\<open>Fin 0\<close> is positive zero). Arithmetic
  rounds to the nearest binary64 value, ties to even.
\<close>

datatype jsnum = NaN | PosInf | NegInf | NegZero | Fin rat

definition digit_char :: "int \<Rightarrow> char" where
  "digit_char d = char_of (48 + d)"

function decimal :: "int \<Rightarrow> string" where
  "decimal n = (if n < 10 then [digit_char n] else decimal (n div 10) @ [digit_char (n mod 10)])"
  by pat_completeness auto
termination
  by (relation "measure nat") auto

declare decimal.simps [simp del]

text \<open>\<open>floor_log b n\<close> is the integer logarithm of \<open>n \<ge> 1\<close> to the base \<open>b\<close>, rounded down.\<close>

function floor_log :: "int \<Rightarrow> int \<Rightarrow> int" where
  "floor_log b n = (if n < b \<or> b < 2 then 0 else 1 + floor_log b (n div b))"
  by pat_completeness auto
termination
  by (relation "measure (\<lambda>(b, n). nat n)") (auto intro!: int_div_less_self)

declare floor_log.simps [simp del]

definition pow_int :: "rat \<Rightarrow> int \<Rightarrow> rat" where
  "pow_int b e = (if 0 \<le> e then b ^ nat e else 1 / b ^ nat (- e))"

text \<open>For \<open>x > 0\<close>, \<open>ilog b x\<close> is the exponent \<open>e\<close> with \<open>b^e \<le> x < b^(e+1)\<close>.\<close>

definition ilog :: "int \<Rightarrow> rat \<Rightarrow> int" where
  "ilog b x =
     (if 1 \<le> x then floor_log b \<lfloor>x\<rfloor>
      else - (1 + floor_log b (\<lceil>1 / x\<rceil> - 1)))"

text \<open>The quotient \<open>a / b\<close> (\<open>b > 0\<close>) rounded to the nearest integer, ties to even.\<close>

definition round_half_even_div :: "int \<Rightarrow> int \<Rightarrow> int" where
  "round_half_even_div a b =
     (let q = a div b; r = a mod b
      in if 2 * r < b then q else if b < 2 * r then q + 1 else if even q then q else q + 1)"

definition round_half_even :: "rat \<Rightarrow> int" where
  "round_half_even r = (let (a, b) = quotient_of r in round_half_even_div a b)"

text \<open>The binary exponent of \<open>p / d\<close> for positive integers \<open>p\<close> and \<open>d\<close>.\<close>

definition ilog2_ratio :: "int \<Rightarrow> int \<Rightarrow> int" where
  "ilog2_ratio p d =
     (let b = bitlen p - bitlen d
      in if (if 0 \<le> b then d * 2 ^ nat b \<le> p else d \<le> p * 2 ^ nat (- b)) then b else b - 1)"

text \<open>
  Rounding \<open>p / d\<close> to binary64: 53 significant bits, the exponent not below that of the
  subnormal numbers, overflow to an infinity.
\<close>

definition round_ratio :: "bool \<Rightarrow> int \<Rightarrow> int \<Rightarrow> jsnum" where
  "round_ratio neg p d =
     (let e = max (ilog2_ratio p d) (- 1022);
          n = (if e \<le> 52 then round_half_even_div (p * 2 ^ nat (52 - e)) d
               else round_half_even_div p (d * 2 ^ nat (e - 52)))
      in if 1023 < e \<or> (e = 1023 \<and> n = 2 ^ 53) then (if neg then NegInf else PosInf)
         else if n = 0 then (if neg then NegZero else Fin 0)
         else Fin ((if neg then - 1 else 1) * of_int n * pow_int 2 (e - 52)))"

definition double_of_rat :: "rat \<Rightarrow> jsnum" where
  "double_of_rat q =
     (if q = 0 then Fin 0
      else let (p, d) = quotient_of q in round_ratio (q < 0) \<bar>p\<bar> d)"

definition is_negative :: "jsnum \<Rightarrow> bool" where
  "is_negative x = (case x of NegInf \<Rightarrow> True | NegZero \<Rightarrow> True | Fin q \<Rightarrow> q < 0 | _ \<Rightarrow> False)"

definition is_zero :: "jsnum \<Rightarrow> bool" where
  "is_zero x = (x = NegZero \<or> x = Fin 0)"

definition is_infinite :: "jsnum \<Rightarrow> bool" where
  "is_infinite x = (x = PosInf \<or> x = NegInf)"

definition rat_of :: "jsnum \<Rightarrow> rat" where
  "rat_of x = (case x of Fin q \<Rightarrow> q | _ \<Rightarrow> 0)"

text \<open>The operator \<^verbatim>\<open>*\<close> on Numbers.\<close>

definition js_mul :: "jsnum \<Rightarrow> jsnum \<Rightarrow> jsnum" where
  "js_mul x y =
     (let neg = (is_negative x \<noteq> is_negative y)
      in if x = NaN \<or> y = NaN then NaN
         else if is_infinite x \<or> is_infinite y then
           (if is_zero x \<or> is_zero y then NaN else if neg then NegInf else PosInf)
         else if is_zero x \<or> is_zero y then (if neg then NegZero else Fin 0)
         else double_of_rat (rat_of x * rat_of y))"

text \<open>The operator \<^verbatim>\<open>>\<close> on Numbers: false when an operand is not a number.\<close>

definition js_gt :: "jsnum \<Rightarrow> jsnum \<Rightarrow> bool" where
  "js_gt x y =
     (if x = NaN \<or> y = NaN then False
      else if x = PosInf then y \<noteq> PosInf
      else if y = NegInf then x \<noteq> NegInf
      else if x = NegInf \<or> y = PosInf then False
      else rat_of y < rat_of x)"

text \<open>
  Number::toString picks the shortest decimal digit string \<open>s\<close> (of \<open>k\<close> digits) and the
  position \<open>n\<close> with \<open>s * 10^(n - k)\<close> rounding to \<open>x\<close>, the closest such \<open>s\<close> when there
  are several. Seventeen digits always identify a binary64 value.
\<close>

fun shortest_digits :: "rat \<Rightarrow> int \<Rightarrow> nat \<Rightarrow> nat \<Rightarrow> int \<times> int" where
  "shortest_digits x n k 0 = (round_half_even (x / pow_int 10 (n - int k)), n)"
| "shortest_digits x n k (Suc fuel) =
     (let scale = pow_int 10 (n - int k);
          lo = \<lfloor>x / scale\<rfloor>;
          hi = lo + 1;
          lo_ok = (double_of_rat (of_int lo * scale) = Fin x);
          hi_ok = (double_of_rat (of_int hi * scale) = Fin x);
          dl = x - of_int lo * scale;
          dh = of_int hi * scale - x
      in if lo_ok \<and> (\<not> hi_ok \<or> dl < dh \<or> (dl = dh \<and> even lo)) then (lo, n)
         else if hi_ok then (if hi = 10 ^ k then (hi div 10, n + 1) else (hi, n))
         else shortest_digits x n (Suc k) fuel)"

definition number_digits :: "rat \<Rightarrow> string \<times> int" where
  "number_digits x = (let (s, n) = shortest_digits x (ilog 10 x + 1) 1 16 in (decimal s, n))"

definition zeros :: "nat \<Rightarrow> string" where
  "zeros m = replicate m (CHR ''0'')"

definition positive_to_string :: "rat \<Rightarrow> string" where
  "positive_to_string x =
     (let (ds, n) = number_digits x; k = int (length ds)
      in if k \<le> n \<and> n \<le> 21 then ds @ zeros (nat (n - k))
         else if 0 < n \<and> n \<le> 21 then take (nat n) ds @ ''.'' @ drop (nat n) ds
         else if - 6 < n \<and> n \<le> 0 then ''0.'' @ zeros (nat (- n)) @ ds
         else let ex = (if 0 \<le> n - 1 then ''+'' else ''-'') @ decimal \<bar>n - 1\<bar>
              in if k = 1 then ds @ ''e'' @ ex
                 else take 1 ds @ ''.'' @ drop 1 ds @ ''e'' @ ex)"

definition number_to_string :: "jsnum \<Rightarrow> string" where
  "number_to_string x =
     (case x of
        NaN \<Rightarrow> ''NaN''
      | PosInf \<Rightarrow> ''Infinity''
      | NegInf \<Rightarrow> ''-Infinity''
      | NegZero \<Rightarrow> ''0''
      | Fin q \<Rightarrow> if q = 0 then ''0''
                 else if q < 0 then ''-'' @ positive_to_string (- q)
                 else positive_to_string q)"

text \<open>
  \<^verbatim>\<open>x.toFixed(f)\<close>: a value that is not finite, or of magnitude \<open>10^21\<close> and more, is
  printed by Number::toString; any other is rounded to \<open>f\<close> decimals, ties away from zero.
\<close>

definition toFixed :: "jsnum \<Rightarrow> nat \<Rightarrow> string" where
  "toFixed x f =
     (if x = NaN \<or> is_infinite x then number_to_string x
      else let q = rat_of x; s = (if q < 0 then ''-'' else ''''); a = \<bar>q\<bar>
           in if 10 ^ 21 \<le> a then s @ positive_to_string a
              else let n = \<lfloor>a * 10 ^ f + 1 / 2\<rfloor>;
                       m = (if n = 0 then ''0'' else decimal n);
                       m' = (if f \<noteq> 0 \<and> length m \<le> f then zeros (f + 1 - length m) @ m else m)
                   in if f \<noteq> 0
                      then s @ take (length m' - f) m' @ ''.'' @ drop (length m' - f) m'
                      else s @ m')"

text \<open>\<^verbatim>\<open>Math.round\<close>: the nearest integer, ties towards \<open>+\<infinity>\<close>; \<open>-0\<close> from \<open>[-0.5, 0)\<close>.\<close>

definition math_round :: "jsnum \<Rightarrow> jsnum" where
  "math_round x =
     (case x of
        Fin q \<Rightarrow> if q < 0 \<and> - (1 / 2) \<le> q then NegZero else Fin (of_int \<lfloor>q + 1 / 2\<rfloor>)
      | _ \<Rightarrow> x)"

subsection \<open>parseFloat and parseInt\<close>

definition is_digit :: "char \<Rightarrow> bool" where
  "is_digit c = (c \<in> set ''0123456789'')"

definition is_hex_digit :: "char \<Rightarrow> bool" where
  "is_hex_digit c = (c \<in> set ''0123456789abcdefABCDEF'')"

definition digit_value :: "char \<Rightarrow> int" where
  "digit_value c =
     (let n = (of_char c :: int)
      in if 97 \<le> n then n - 87 else if 65 \<le> n then n - 55 else n - 48)"

definition radix_value :: "int \<Rightarrow> string \<Rightarrow> int" where
  "radix_value r ds = foldl (\<lambda>acc c. acc * r + digit_value c) 0 ds"

definition parse_sign :: "string \<Rightarrow> bool \<times> string" where
  "parse_sign s =
     (case s of
        [] \<Rightarrow> (False, s)
      | c # cs \<Rightarrow> if c = CHR ''-'' then (True, cs) else if c = CHR ''+'' then (False, cs) else (False, s))"

text \<open>The exponent part of a decimal literal; without digits after the \<open>e\<close> there is none.\<close>

definition exponent_part :: "string \<Rightarrow> int" where
  "exponent_part s =
     (case s of
        [] \<Rightarrow> 0
      | c # cs \<Rightarrow>
          if c = CHR ''e'' \<or> c = CHR ''E'' then
            (let (neg, t) = parse_sign cs; ds = takeWhile is_digit t
             in if ds = [] then 0 else if neg then - radix_value 10 ds else radix_value 10 ds)
          else 0)"

text \<open>
  \<^verbatim>\<open>parseFloat\<close> skips leading white space and reads the longest prefix that is a decimal
  literal; without one the result is not-a-number.
\<close>

definition parseFloat :: "string \<Rightarrow> jsnum" where
  "parseFloat input =
     (let (neg, s) = parse_sign (trim_start input)
      in if prefix ''Infinity'' s then (if neg then NegInf else PosInf)
         else let ip = takeWhile is_digit s;
                  r1 = dropWhile is_digit s;
                  dot = (r1 \<noteq> [] \<and> hd r1 = CHR ''.'');
                  fp = (if dot then takeWhile is_digit (tl r1) else []);
                  r2 = (if dot then dropWhile is_digit (tl r1) else r1);
                  m = radix_value 10 (ip @ fp)
              in if ip = [] \<and> fp = [] then NaN
                 else if m = 0 then (if neg then NegZero else Fin 0)
                 else double_of_rat ((if neg then - 1 else 1) * of_int m
                        * pow_int 10 (exponent_part r2 - int (length fp))))"

text \<open>
  \<^verbatim>\<open>parseInt\<close> without a radix: leading white space, a sign, \<^verbatim>\<open>0x\<close> for base 16,
  then the longest run of digits; without a digit the result is not-a-number.
\<close>

definition parseInt :: "string \<Rightarrow> jsnum" where
  "parseInt input =
     (let (neg, s) = parse_sign (trim_start input);
          hex = (prefix ''0x'' s \<or> prefix ''0X'' s);
          ds = (if hex then takeWhile is_hex_digit (drop 2 s) else takeWhile is_digit s);
          m = radix_value (if hex then 16 else 10) ds
      in if ds = [] then NaN
         else if m = 0 then (if neg then NegZero else Fin 0)
         else double_of_rat (of_int (if neg then - m else m)))"

subsection \<open>Values of the reply and the browser\<close>

text \<open>
  A parsed JSON value. An object is the list of its properties in the order in which
  \<^verbatim>\<open>Object.entries\<close> enumerates them, with distinct keys.
\<close>

datatype json = JNull | JBool bool | JNum jsnum | JStr string | JArr "json list"
  | JObj "(string \<times> json) list"

text \<open>
  A thrown value: \<open>Error m\<close> carries its message; \<open>TypeError w\<close> is raised by the engine
  at the expression \<open>w\<close>, and \<open>ReferenceError x\<close> at the name \<open>x\<close> that is not
  defined, each with a message of the engine's choice.
\<close>

datatype exn = Error string | TypeError string | ReferenceError string

text \<open>
  The nodes that the script looks up with \<^verbatim>\<open>getElementById\<close> when it loads and that the
  handler assigns to: \<^verbatim>\<open>loadingMessage\<close>, \<^verbatim>\<open>errorMessage\<close>, \<^verbatim>\<open>metricsOutput\<close>. The
  two plot nodes are only handed to Plotly.
\<close>

datatype node = LoadingMessage | ErrorMessage | MetricsOutput

datatype plot_div = IrrPlot | MoicPlot

record response =
  resp_ok :: bool
  resp_json :: "exn + json"

record request =
  req_url :: string
  req_method :: string
  req_headers :: "(string \<times> string) list"
  req_body :: string

text \<open>
  What the handler takes from its surroundings: \<open>form i\<close> is the \<^verbatim>\<open>value\<close> of the control
  with id \<open>i\<close> (\<open>None\<close> when the page has no such element); \<open>fetch\<close> is the server's
  answer, or the rejection of the request; \<open>to_locale_string\<close> is
  \<^verbatim>\<open>Number.prototype.toLocaleString\<close> in the browser's locale; \<open>to_number_other\<close> is the
  engine's ToNumber on strings, arrays and objects. \<open>present n\<close> tells whether the page
  has the node \<open>n\<close> (the script holds \<^verbatim>\<open>null\<close> for a node that the page lacks);
  \<open>purge d\<close> is the outcome of the statement \<^verbatim>\<open>Plotly.purge\<close> on the plot node \<open>d\<close>:
  \<open>None\<close> when the call returns, and otherwise what is thrown, a ReferenceError when Plotly
  is not loaded, or the library's own exception (it refuses a node that is \<^verbatim>\<open>null\<close>).
\<close>

record browser =
  form :: "string \<Rightarrow> string option"
  fetch :: "request \<Rightarrow> exn + response"
  to_locale_string :: "jsnum \<Rightarrow> string"
  to_number_other :: "json \<Rightarrow> jsnum"
  type_error_message :: "string \<Rightarrow> string"
  reference_error_message :: "string \<Rightarrow> string"
  present :: "node \<Rightarrow> bool"
  purge :: "plot_div \<Rightarrow> exn option"

definition message :: "browser \<Rightarrow> exn \<Rightarrow> string" where
  "message b e =
     (case e of
        Error m \<Rightarrow> m
      | TypeError w \<Rightarrow> type_error_message b w
      | ReferenceError x \<Rightarrow> reference_error_message b x)"

definition to_number :: "browser \<Rightarrow> json \<Rightarrow> jsnum" where
  "to_number b v =
     (case v of
        JNum n \<Rightarrow> n
      | JNull \<Rightarrow> Fin 0
      | JBool t \<Rightarrow> (if t then Fin 1 else Fin 0)
      | _ \<Rightarrow> to_number_other b v)"

text \<open>ToString, as the \<^verbatim>\<open>Error\<close> constructor applies it to its argument.\<close>

fun js_to_string :: "json \<Rightarrow> string" where
  "js_to_string JNull = ''null''"
| "js_to_string (JBool t) = (if t then ''true'' else ''false'')"
| "js_to_string (JNum n) = number_to_string n"
| "js_to_string (JStr s) = s"
| "js_to_string (JArr vs) = join '','' (map (\<lambda>v. if v = JNull then [] else js_to_string v) vs)"
| "js_to_string (JObj kvs) = ''[object Object]''"

text \<open>ToBoolean of a property that may be absent.\<close>

definition truthy :: "json option \<Rightarrow> bool" where
  "truthy v =
     (case v of
        None \<Rightarrow> False
      | Some JNull \<Rightarrow> False
      | Some (JBool t) \<Rightarrow> t
      | Some (JNum n) \<Rightarrow> n \<noteq> NaN \<and> \<not> is_zero n
      | Some (JStr s) \<Rightarrow> s \<noteq> []
      | Some _ \<Rightarrow> True)"

text \<open>
  Reading one of the properties \<^verbatim>\<open>error\<close>, \<^verbatim>\<open>metrics\<close>, \<^verbatim>\<open>plot_data_irr\<close>,
  \<^verbatim>\<open>plot_data_moic\<close>: a TypeError on \<^verbatim>\<open>null\<close>, \<^verbatim>\<open>undefined\<close> (\<open>None\<close>) on a value
  that is not an object or has no such property.
\<close>

definition get_prop :: "json \<Rightarrow> string \<Rightarrow> exn + json option" where
  "get_prop v name =
     (case v of
        JNull \<Rightarrow> Inl (TypeError (''results.'' @ name))
      | JObj kvs \<Rightarrow> Inr (map_of kvs name)
      | _ \<Rightarrow> Inr None)"

text \<open>\<^verbatim>\<open>Object.entries\<close>: the indexed elements of an array or a string, nothing for a
  number or a boolean, a TypeError for \<^verbatim>\<open>null\<close> and \<^verbatim>\<open>undefined\<close>.\<close>

definition indexed :: "json list \<Rightarrow> (string \<times> json) list" where
  "indexed vs = zip (map (\<lambda>i. decimal (int i)) [0..<length vs]) vs"

definition object_entries :: "json option \<Rightarrow> exn + (string \<times> json) list" where
  "object_entries v =
     (case v of
        None \<Rightarrow> Inl (TypeError ''Object.entries(results.metrics)'')
      | Some JNull \<Rightarrow> Inl (TypeError ''Object.entries(results.metrics)'')
      | Some (JObj kvs) \<Rightarrow> Inr kvs
      | Some (JArr vs) \<Rightarrow> Inr (indexed vs)
      | Some (JStr s) \<Rightarrow> Inr (indexed (map (\<lambda>c. JStr [c]) s))
      | Some _ \<Rightarrow> Inr [])"

subsection \<open>The request\<close>

definition API_URL :: string where
  "API_URL = ''https://monte-carlo-sim-for-vc.onrender.com/run_simulation''"

datatype parser = ParseFloat | ParseInt

text \<open>The properties of \<^verbatim>\<open>inputData\<close> in source order: key, id of the control, parser.\<close>

definition input_fields :: "(string \<times> string \<times> parser) list" where
  "input_fields =
     [(''failure_rate_pct'', ''failure-rate'', ParseFloat),
      (''zombie_rate_pct'', ''zombie-rate'', ParseFloat),
      (''rec_min'', ''rec-min'', ParseFloat),
      (''rec_mode'', ''rec-mode'', ParseFloat),
      (''rec_max'', ''rec-max'', ParseFloat),
      (''initial_investment'', ''investment'', ParseFloat),
      (''val_min'', ''val-min'', ParseFloat),
      (''val_mode'', ''val-mode'', ParseFloat),
      (''val_max'', ''val-max'', ParseFloat),
      (''tam_min_p10'', ''tam-min'', ParseFloat),
      (''tam_max_p90'', ''tam-max'', ParseFloat),
      (''ms_min_p10_pct'', ''ms-min'', ParseFloat),
      (''ms_max_p90_pct'', ''ms-max'', ParseFloat),
      (''q1_mult'', ''mult-q1'', ParseFloat),
      (''median_mult'', ''mult-median'', ParseFloat),
      (''q3_mult'', ''mult-q3'', ParseFloat),
      (''time_min'', ''time-min'', ParseFloat),
      (''time_mode'', ''time-mode'', ParseFloat),
      (''time_max'', ''time-max'', ParseFloat),
      (''rounds_min'', ''rounds-min'', ParseInt),
      (''rounds_max'', ''rounds-max'', ParseInt),
      (''dil_min'', ''dil-min'', ParseFloat),
      (''dil_mode'', ''dil-mode'', ParseFloat),
      (''dil_max'', ''dil-max'', ParseFloat),
      (''num_simulations'', ''num-sims'', ParseInt)]"

definition parse :: "parser \<Rightarrow> string \<Rightarrow> jsnum" where
  "parse p v = (case p of ParseFloat \<Rightarrow> parseFloat v | ParseInt \<Rightarrow> parseInt v)"

text \<open>
  The object literal is evaluated property by property; reading \<^verbatim>\<open>.value\<close> of a missing
  element throws, and nothing is sent.
\<close>

fun gather :: "(string \<Rightarrow> string option) \<Rightarrow> (string \<times> string \<times> parser) list
    \<Rightarrow> exn + (string \<times> jsnum) list" where
  "gather f [] = Inr []"
| "gather f ((key, i, p) # rest) =
     (case f i of
        None \<Rightarrow> Inl (TypeError (''document.getElementById('' @ i @ '').value''))
      | Some v \<Rightarrow>
          (case gather f rest of
             Inl e \<Rightarrow> Inl e
           | Inr kvs \<Rightarrow> Inr ((key, parse p v) # kvs)))"

definition inputData :: "(string \<Rightarrow> string option) \<Rightarrow> exn + (string \<times> jsnum) list" where
  "inputData f = gather f input_fields"

text \<open>
  \<^verbatim>\<open>JSON.stringify\<close> of an object of Numbers: a finite Number by Number::toString, any
  other as \<^verbatim>\<open>null\<close>. The keys of \<^verbatim>\<open>inputData\<close> need no escaping.
\<close>

definition serialize_number :: "jsnum \<Rightarrow> string" where
  "serialize_number v = (if v = NaN \<or> is_infinite v then ''null'' else number_to_string v)"

definition serialize_property :: "string \<times> jsnum \<Rightarrow> string" where
  "serialize_property kv = dquote @ fst kv @ dquote @ '':'' @ serialize_number (snd kv)"

definition json_stringify :: "(string \<times> jsnum) list \<Rightarrow> string" where
  "json_stringify kvs = ''{'' @ join '','' (map serialize_property kvs) @ ''}''"

definition make_request :: "(string \<times> jsnum) list \<Rightarrow> request" where
  "make_request kvs =
     \<lparr>req_url = API_URL, req_method = ''POST'',
      req_headers = [(''Content-Type'', ''application/json'')],
      req_body = json_stringify kvs\<rparr>"

subsection \<open>Rendering the metrics\<close>

definition is_string :: "json \<Rightarrow> bool" where
  "is_string v = (case v of JStr s \<Rightarrow> True | _ \<Rightarrow> False)"

text \<open>\<^verbatim>\<open>value.toFixed(2)\<close>: only a Number has the method.\<close>

definition value_toFixed :: "json \<Rightarrow> exn + string" where
  "value_toFixed v = (case v of JNum n \<Rightarrow> Inr (toFixed n 2) | _ \<Rightarrow> Inl (TypeError ''value.toFixed''))"

text \<open>One turn of the loop over \<^verbatim>\<open>Object.entries(results.metrics)\<close>: the text appended.\<close>

definition render_entry :: "browser \<Rightarrow> string \<Rightarrow> json \<Rightarrow> exn + string" where
  "render_entry b key v =
     (if is_string v \<and> v = JStr '''' then Inr (newline @ key @ newline)
      else if is_string v then Inr (padEnd key 32 @ '': '' @ js_to_string v @ newline)
      else if str_includes key ''IRR'' \<or> str_includes key ''P('' then
        Inr (padEnd key 32 @ '': '' @ toFixed (js_mul (to_number b v) (Fin 100)) 2 @ ''%'' @ newline)
      else if str_includes key ''MOIC'' then
        (case value_toFixed v of
           Inl e \<Rightarrow> Inl e
         | Inr t \<Rightarrow> Inr (padEnd key 32 @ '': '' @ t @ ''x'' @ newline))
      else if str_includes key ''Val'' \<or> str_includes key ''Proceeds'' then
        Inr (padEnd key 32 @ '': $'' @ to_locale_string b (math_round (to_number b v)) @ newline)
      else
        (case value_toFixed v of
           Inl e \<Rightarrow> Inl e
         | Inr t \<Rightarrow> Inr (padEnd key 32 @ '': '' @ t @ newline)))"

fun render_loop :: "browser \<Rightarrow> string \<Rightarrow> (string \<times> json) list \<Rightarrow> exn + string" where
  "render_loop b metricsText [] = Inr metricsText"
| "render_loop b metricsText ((key, v) # rest) =
     (case render_entry b key v of
        Inl e \<Rightarrow> Inl e
      | Inr line \<Rightarrow> render_loop b (metricsText @ line) rest)"

subsection \<open>The plots\<close>

record trace =
  trace_x :: "json option"
  trace_type :: string
  trace_nbinsx :: "nat option"
  trace_name :: string
  trace_marker_color :: string

record layout =
  layout_title :: string
  xaxis_title :: string
  xaxis_tickformat :: "string option"
  xaxis_type :: "string option"
  yaxis_title :: string
  bargap :: rat

definition irrTrace :: "json option \<Rightarrow> trace" where
  "irrTrace data =
     \<lparr>trace_x = data, trace_type = ''histogram'', trace_nbinsx = Some 100,
      trace_name = ''IRR'', trace_marker_color = ''#007bff''\<rparr>"

definition irrLayout :: layout where
  "irrLayout =
     \<lparr>layout_title = ''IRR Distribution'', xaxis_title = ''IRR'',
      xaxis_tickformat = Some ''.0%'', xaxis_type = None,
      yaxis_title = ''Frequency'', bargap = 5 / 100\<rparr>"

definition moicTrace :: "json list \<Rightarrow> trace" where
  "moicTrace data =
     \<lparr>trace_x = Some (JArr data), trace_type = ''histogram'', trace_nbinsx = None,
      trace_name = ''MOIC'', trace_marker_color = ''#28a745''\<rparr>"

definition moicLayout :: layout where
  "moicLayout =
     \<lparr>layout_title = ''MOIC Distribution (Log Scale)'',
      xaxis_title = ''MOIC (Log Scale, > 0.01x)'',
      xaxis_tickformat = None, xaxis_type = Some ''log'',
      yaxis_title = ''Frequency'', bargap = 5 / 100\<rparr>"

text \<open>The literal \<^verbatim>\<open>0.01\<close> is the binary64 value nearest to one hundredth.\<close>

definition moic_threshold :: jsnum where
  "moic_threshold = double_of_rat (1 / 100)"

text \<open>\<^verbatim>\<open>results.plot_data_moic.filter(m => m > 0.01)\<close>: only an array has the method.\<close>

definition moic_filter :: "browser \<Rightarrow> json option \<Rightarrow> exn + json list" where
  "moic_filter b v =
     (case v of
        Some (JArr ms) \<Rightarrow> Inr (filter (\<lambda>m. js_gt (to_number b m) moic_threshold) ms)
      | _ \<Rightarrow> Inl (TypeError ''results.plot_data_moic.filter''))"

subsection \<open>The click handler\<close>

text \<open>
  What the handler does to the page and the network, one constructor per statement that
  completes. The handler is installed on the button, so the button exists. Each statement
  throws where the language says it does: an assignment through a node that is \<^verbatim>\<open>null\<close>
  is a TypeError, and \<^verbatim>\<open>Plotly.purge\<close> throws what the browser says. The \<^verbatim>\<open>try\<close>
  statement is entered only when the five statements before it have completed: then the
  three nodes are not \<^verbatim>\<open>null\<close> and Plotly is loaded and has accepted both plot nodes,
  so the later assignments to the three nodes do not throw, and \<^verbatim>\<open>Plotly.newPlot\<close> on
  the same plot nodes is taken to return. The two \<^verbatim>\<open>await\<close>s take their outcome from
  the browser.
\<close>

datatype effect =
    LoadingDisplay string
  | ErrorDisplay string
  | ErrorText string
  | MetricsText string
  | Purge plot_div
  | FetchCall request
  | NewPlot plot_div trace layout

text \<open>The value thrown for a reply whose status is not a success.\<close>

definition not_ok_error :: "json \<Rightarrow> exn" where
  "not_ok_error results =
     (case get_prop results ''error'' of
        Inl e \<Rightarrow> e
      | Inr v \<Rightarrow>
          (case v of
             None \<Rightarrow> Error ''An unknown error occurred''
           | Some w \<Rightarrow>
               if truthy v then Error (js_to_string w) else Error ''An unknown error occurred''))"

text \<open>Step 4 of the handler: the effects performed, and the exception that ended them.\<close>

definition render_results :: "browser \<Rightarrow> json \<Rightarrow> effect list \<times> exn option" where
  "render_results b results =
     (case get_prop results ''metrics'' of
        Inl e \<Rightarrow> ([], Some e)
      | Inr metrics \<Rightarrow>
     (case object_entries metrics of
        Inl e \<Rightarrow> ([], Some e)
      | Inr entries \<Rightarrow>
     (case render_loop b '''' entries of
        Inl e \<Rightarrow> ([], Some e)
      | Inr metricsText \<Rightarrow>
     (case get_prop results ''plot_data_irr'' of
        Inl e \<Rightarrow> ([MetricsText (trim metricsText)], Some e)
      | Inr irr \<Rightarrow>
     (case get_prop results ''plot_data_moic'' of
        Inl e \<Rightarrow> ([MetricsText (trim metricsText), NewPlot IrrPlot (irrTrace irr) irrLayout], Some e)
      | Inr moic \<Rightarrow>
     (case moic_filter b moic of
        Inl e \<Rightarrow> ([MetricsText (trim metricsText), NewPlot IrrPlot (irrTrace irr) irrLayout], Some e)
      | Inr ms \<Rightarrow>
          ([MetricsText (trim metricsText), NewPlot IrrPlot (irrTrace irr) irrLayout,
            NewPlot MoicPlot (moicTrace ms) moicLayout], None)))))))"

text \<open>The body of the \<^verbatim>\<open>try\<close> block.\<close>

definition try_block :: "browser \<Rightarrow> effect list \<times> exn option" where
  "try_block b =
     (case inputData (form b) of
        Inl e \<Rightarrow> ([], Some e)
      | Inr kvs \<Rightarrow>
     (case fetch b (make_request kvs) of
        Inl e \<Rightarrow> ([FetchCall (make_request kvs)], Some e)
      | Inr resp \<Rightarrow>
     (case resp_json resp of
        Inl e \<Rightarrow> ([FetchCall (make_request kvs)], Some e)
      | Inr results \<Rightarrow>
          if \<not> resp_ok resp then ([FetchCall (make_request kvs)], Some (not_ok_error results))
          else (FetchCall (make_request kvs) # fst (render_results b results),
                snd (render_results b results)))))"

definition catch_block :: "browser \<Rightarrow> exn \<Rightarrow> effect list" where
  "catch_block b e = [ErrorText (''Error: '' @ message b e), ErrorDisplay ''block'']"

definition finally_block :: "effect list" where
  "finally_block = [LoadingDisplay ''none'']"

text \<open>
  The five statements that stand before \<^verbatim>\<open>try\<close>: the effects of those that complete,
  and the exception of the one that throws. Nothing catches that exception.
\<close>

definition before_try :: "browser \<Rightarrow> effect list \<times> exn option" where
  "before_try b =
     (if \<not> present b LoadingMessage then ([], Some (TypeError ''loadingMessage.style''))
      else if \<not> present b ErrorMessage then
        ([LoadingDisplay ''block''], Some (TypeError ''errorMessage.style''))
      else if \<not> present b MetricsOutput then
        ([LoadingDisplay ''block'', ErrorDisplay ''none''],
         Some (TypeError ''metricsOutput.textContent''))
      else
     (case purge b IrrPlot of
        Some e \<Rightarrow> ([LoadingDisplay ''block'', ErrorDisplay ''none'', MetricsText ''''], Some e)
      | None \<Rightarrow>
     (case purge b MoicPlot of
        Some e \<Rightarrow>
          ([LoadingDisplay ''block'', ErrorDisplay ''none'', MetricsText '''', Purge IrrPlot],
           Some e)
      | None \<Rightarrow>
          ([LoadingDisplay ''block'', ErrorDisplay ''none'', MetricsText '''',
            Purge IrrPlot, Purge MoicPlot], None))))"

text \<open>
  The \<^verbatim>\<open>try\<close> statement: the body, the \<^verbatim>\<open>catch\<close> clause when the body has thrown, and
  the \<^verbatim>\<open>finally\<close> clause.
\<close>

definition try_statement :: "browser \<Rightarrow> effect list" where
  "try_statement b =
     fst (try_block b)
     @ (case snd (try_block b) of None \<Rightarrow> [] | Some e \<Rightarrow> catch_block b e)
     @ finally_block"

text \<open>
  The handler: a run that throws before \<^verbatim>\<open>try\<close> ends there, with neither \<^verbatim>\<open>catch\<close>
  nor \<^verbatim>\<open>finally\<close>.
\<close>

definition handler :: "browser \<Rightarrow> effect list" where
  "handler b =
     (case snd (before_try b) of
        Some e \<Rightarrow> fst (before_try b)
      | None \<Rightarrow> fst (before_try b) @ try_statement b)"

subsection \<open>The page\<close>

record page =
  loading_display :: string
  error_display :: string
  error_text :: string
  metrics_text :: string
  irr_plot :: "(trace \<times> layout) option"
  moic_plot :: "(trace \<times> layout) option"
  requests :: "request list"

fun apply_effect :: "page \<Rightarrow> effect \<Rightarrow> page" where
  "apply_effect p (LoadingDisplay d) = p\<lparr>loading_display := d\<rparr>"
| "apply_effect p (ErrorDisplay d) = p\<lparr>error_display := d\<rparr>"
| "apply_effect p (ErrorText t) = p\<lparr>error_text := t\<rparr>"
| "apply_effect p (MetricsText t) = p\<lparr>metrics_text := t\<rparr>"
| "apply_effect p (Purge IrrPlot) = p\<lparr>irr_plot := None\<rparr>"
| "apply_effect p (Purge MoicPlot) = p\<lparr>moic_plot := None\<rparr>"
| "apply_effect p (FetchCall r) = p\<lparr>requests := requests p @ [r]\<rparr>"
| "apply_effect p (NewPlot IrrPlot t l) = p\<lparr>irr_plot := Some (t, l)\<rparr>"
| "apply_effect p (NewPlot MoicPlot t l) = p\<lparr>moic_plot := Some (t, l)\<rparr>"

text \<open>The page after a click.\<close>

definition click :: "browser \<Rightarrow> page \<Rightarrow> page" where
  "click b p = foldl apply_effect p (handler b)"

subsection \<open>Observations on a run of the handler\<close>

text \<open>The values written to \<^verbatim>\<open>loadingMessage.style.display\<close>, in order.\<close>

definition loading_writes :: "effect list \<Rightarrow> string list" where
  "loading_writes es = concat (map (\<lambda>e. case e of LoadingDisplay d \<Rightarrow> [d] | _ \<Rightarrow> []) es)"

subsection \<open>The formatting rule in the words of the specification\<close>

text \<open>
  The kinds of line of the report, what each prints, and the order in which their
  conditions are tried. An entry is formatted by the earliest kind whose condition holds.
\<close>

datatype branch = SectionHeader | Verbatim | Percentage | Multiple | Currency | PlainNumber

definition format_branch :: "browser \<Rightarrow> branch \<Rightarrow> string \<Rightarrow> json \<Rightarrow> exn + string" where
  "format_branch b br key v =
     (case br of
        SectionHeader \<Rightarrow> Inr (newline @ key @ newline)
      | Verbatim \<Rightarrow> Inr (padEnd key 32 @ '': '' @ js_to_string v @ newline)
      | Percentage \<Rightarrow>
          Inr (padEnd key 32 @ '': '' @ toFixed (js_mul (to_number b v) (Fin 100)) 2 @ ''%'' @ newline)
      | Multiple \<Rightarrow>
          (case value_toFixed v of
             Inl e \<Rightarrow> Inl e
           | Inr t \<Rightarrow> Inr (padEnd key 32 @ '': '' @ t @ ''x'' @ newline))
      | Currency \<Rightarrow>
          Inr (padEnd key 32 @ '': $'' @ to_locale_string b (math_round (to_number b v)) @ newline)
      | PlainNumber \<Rightarrow>
          (case value_toFixed v of
             Inl e \<Rightarrow> Inl e
           | Inr t \<Rightarrow> Inr (padEnd key 32 @ '': '' @ t @ newline)))"

definition precedence :: "(branch \<times> (string \<Rightarrow> json \<Rightarrow> bool)) list" where
  "precedence =
     [(SectionHeader, \<lambda>key v. v = JStr ''''),
      (Verbatim, \<lambda>key v. is_string v),
      (Percentage, \<lambda>key v. str_includes key ''IRR'' \<or> str_includes key ''P(''),
      (Multiple, \<lambda>key v. str_includes key ''MOIC''),
      (Currency, \<lambda>key v. str_includes key ''Val'' \<or> str_includes key ''Proceeds''),
      (PlainNumber, \<lambda>key v. True)]"

definition matching_branches :: "string \<Rightarrow> json \<Rightarrow> branch list" where
  "matching_branches key v = map fst (filter (\<lambda>(br, applies). applies key v) precedence)"

definition earliest_branch :: "string \<Rightarrow> json \<Rightarrow> branch" where
  "earliest_branch key v = hd (matching_branches key v)"

subsection \<open>Number formats in the words of the specification\<close>

text \<open>
  \<open>two_decimals x\<close> is \<open>x\<close> rounded to hundredths (a tie away from zero) and written with
  its sign, its integer digits, a point and two digits.
\<close>

definition two_decimals :: "rat \<Rightarrow> string" where
  "two_decimals x =
     (let n = \<lfloor>\<bar>x\<bar> * 100 + 1 / 2\<rfloor>
      in (if x < 0 then ''-'' else '''') @ decimal (n div 100) @ ''.''
           @ [digit_char (n mod 100 div 10), digit_char (n mod 10)])"

text \<open>
  The en-US format of an integer: digits in groups of three, separated by commas.
  \<open>en_US b\<close> says that the browser's locale prints the integers of magnitude up to \<open>2^53\<close>
  so. \<open>demo_locale_string\<close> does, and is arbitrary on the infinities.
\<close>

function group_thousands :: "string \<Rightarrow> string" where
  "group_thousands ds =
     (if length ds \<le> 3 then ds
      else group_thousands (take (length ds - 3) ds) @ '','' @ drop (length ds - 3) ds)"
  by pat_completeness auto
termination
  by (relation "measure length") auto

declare group_thousands.simps [simp del]

definition en_US_integer :: "int \<Rightarrow> string" where
  "en_US_integer n = (if n < 0 then ''-'' else '''') @ group_thousands (decimal \<bar>n\<bar>)"

definition en_US :: "browser \<Rightarrow> bool" where
  "en_US b = (\<forall>n. \<bar>n\<bar> \<le> 2 ^ 53 \<longrightarrow> to_locale_string b (Fin (of_int n)) = en_US_integer n)"

definition demo_locale_string :: "jsnum \<Rightarrow> string" where
  "demo_locale_string x =
     (case x of Fin q \<Rightarrow> en_US_integer \<lfloor>q\<rfloor> | NegZero \<Rightarrow> ''-0'' | NaN \<Rightarrow> ''NaN'' | _ \<Rightarrow> '''')"

subsection \<open>A browser for the examples\<close>

text \<open>
  The page has its nodes and Plotly is loaded; every control holds \<^verbatim>\<open>1\<close>, the server
  answers with the given reply, the locale is en-US, and the engine names the faulting
  expression in the message of a TypeError and says of a name that it is not defined.
\<close>

definition demo_browser :: "response \<Rightarrow> browser" where
  "demo_browser reply =
     \<lparr>form = (\<lambda>i. Some ''1''), fetch = (\<lambda>r. Inr reply),
      to_locale_string = demo_locale_string, to_number_other = (\<lambda>v. NaN),
      type_error_message = (\<lambda>w. w),
      reference_error_message = (\<lambda>x. x @ '' is not defined''),
      present = (\<lambda>n. True), purge = (\<lambda>d. None)\<rparr>"

definition blank_page :: page where
  "blank_page =
     \<lparr>loading_display = ''none'', error_display = ''none'', error_text = '''',
      metrics_text = '''', irr_plot = None, moic_plot = None, requests = []\<rparr>"

subsection \<open>Lines of the report, and the examples of the specification\<close>

text \<open>
  \<open>own_line out key\<close>: the text \<open>out\<close> holds \<open>key\<close> between two line boundaries (the
  start or the end of the text, or a line feed).
\<close>

definition own_line :: "string \<Rightarrow> string \<Rightarrow> bool" where
  "own_line out key =
     (\<exists>pre post. out = pre @ key @ post
        \<and> (pre = [] \<or> last pre = CHR 0x0A) \<and> (post = [] \<or> hd post = CHR 0x0A))"

definition header_example :: "(string \<times> json) list" where
  "header_example = [(''--- Returns ---'', JStr ''''), (''Model'', JStr ''trimodal'')]"

definition moic_example :: "jsnum list" where
  "moic_example = [double_of_rat (1 / 1000), double_of_rat (2 / 100), Fin 5, Fin 10]"

definition moic_example_body :: "(string \<times> json) list" where
  "moic_example_body =
     [(''metrics'', JObj []), (''plot_data_irr'', JArr []),
      (''plot_data_moic'', JArr (map JNum moic_example))]"

definition moic_example_reply :: response where
  "moic_example_reply = \<lparr>resp_ok = True, resp_json = Inr (JObj moic_example_body)\<rparr>"

text \<open>A form whose first control does not hold a number.\<close>

definition nan_form :: "string \<Rightarrow> string option" where
  "nan_form i = (if i = ''failure-rate'' then Some ''abc'' else Some ''1'')"

definition nan_browser :: browser where
  "nan_browser = (demo_browser moic_example_reply)\<lparr>form := nan_form\<rparr>"

text \<open>A page on which the Plotly script has not been loaded.\<close>

definition no_plotly_browser :: browser where
  "no_plotly_browser =
     (demo_browser moic_example_reply)\<lparr>purge := (\<lambda>d. Some (ReferenceError ''Plotly''))\<rparr>"

text \<open>A browser whose request is rejected by the network.\<close>

definition offline_browser :: browser where
  "offline_browser =
     (demo_browser moic_example_reply)\<lparr>fetch := (\<lambda>r. Inl (TypeError ''fetch''))\<rparr>"

text \<open>A Number without a fractional part.\<close>

definition integral :: "jsnum \<Rightarrow> bool" where
  "integral v = (case v of Fin q \<Rightarrow> of_int \<lfloor>q\<rfloor> = q | _ \<Rightarrow> True)"

text \<open>
  The keys of a SimulationRequest as the specification lists them, and those it marks as
  integers.
\<close>

definition spec_keys :: "string list" where
  "spec_keys =
     [''failure_rate_pct'', ''zombie_rate_pct'', ''rec_min'', ''rec_mode'', ''rec_max'',
      ''initial_investment'', ''val_min'', ''val_mode'', ''val_max'', ''tam_min_p10'',
      ''tam_max_p90'', ''ms_min_p10_pct'', ''ms_max_p90_pct'', ''q1_mult'', ''median_mult'',
      ''q3_mult'', ''time_min'', ''time_mode'', ''time_max'', ''rounds_min'', ''rounds_max'',
      ''dil_min'', ''dil_mode'', ''dil_max'', ''num_simulations'']"

definition integer_keys :: "string list" where
  "integer_keys = [''rounds_min'', ''rounds_max'', ''num_simulations'']"

text \<open>A form whose integer controls hold a fraction and a count.\<close>

definition integer_form :: "string \<Rightarrow> string option" where
  "integer_form i =
     (if i = ''rounds-min'' then Some ''2.7''
      else if i = ''num-sims'' then Some ''10000''
      else Some ''1'')"

definition integer_browser :: browser where
  "integer_browser = (demo_browser moic_example_reply)\<lparr>form := integer_form\<rparr>"

text \<open>The body that this form produces, written out.\<close>

definition nan_body :: string where
  "nan_body =
     ''{'' @ join '',''
       (map (\<lambda>key. dquote @ key @ dquote @ '':''
                @ (if key = ''failure_rate_pct'' then ''null'' else ''1'')) spec_keys)
     @ ''}''"

section \<open>Properties\<close>

subsection \<open>The loading indicator\<close>

lemma loading_writes_append: "loading_writes (xs @ ys) = loading_writes xs @ loading_writes ys"
  by (simp add: loading_writes_def)

lemma loading_writes_render: "loading_writes (fst (render_results b r)) = []"
  by (simp add: render_results_def loading_writes_def split: sum.splits)

lemma loading_writes_try: "loading_writes (fst (try_block b)) = []"
  using loading_writes_render [of b]
  by (simp add: try_block_def loading_writes_def split: sum.splits)

lemma loading_writes_catch: "loading_writes (catch_block b e) = []"
  by (simp add: catch_block_def loading_writes_def)

lemma before_try_completes:
  "snd (before_try b) = None \<longleftrightarrow>
     present b LoadingMessage \<and> present b ErrorMessage \<and> present b MetricsOutput
     \<and> purge b IrrPlot = None \<and> purge b MoicPlot = None"
  by (simp add: before_try_def split: option.splits)

lemma before_try_effects:
  "snd (before_try b) = None \<Longrightarrow>
   fst (before_try b) =
     [LoadingDisplay ''block'', ErrorDisplay ''none'', MetricsText '''',
      Purge IrrPlot, Purge MoicPlot]"
  by (simp add: before_try_def split: option.splits if_splits)

lemma handler_entered:
  "snd (before_try b) = None \<Longrightarrow>
   handler b =
     [LoadingDisplay ''block'', ErrorDisplay ''none'', MetricsText '''',
      Purge IrrPlot, Purge MoicPlot]
     @ fst (try_block b)
     @ (case snd (try_block b) of None \<Rightarrow> [] | Some e \<Rightarrow> catch_block b e)
     @ [LoadingDisplay ''none'']"
  by (simp add: handler_def try_statement_def finally_block_def before_try_effects)

lemma demo_before_try: "snd (before_try (demo_browser reply)) = None"
  by (simp add: before_try_completes demo_browser_def)

lemma foldl_apply_last:
  "es \<noteq> [] \<Longrightarrow> last es = LoadingDisplay d \<Longrightarrow> loading_display (foldl apply_effect p es) = d"
  by (induction es arbitrary: p rule: rev_induct) auto

text \<open>
  Claim C4, as amended. When the five statements before \<^verbatim>\<open>try\<close> complete (the page has
  the three nodes and Plotly purges both plots), then whatever the form holds and whatever
  the network and the reply do, the run writes the display of the loading indicator exactly
  twice: \<^verbatim>\<open>block\<close> at the start and \<^verbatim>\<open>none\<close> once, as the last statement executed (the
  \<^verbatim>\<open>finally\<close> block); the page after the click shows no loading indicator.
\<close>

theorem loading_indicator_hidden_once:
  assumes "snd (before_try b) = None"
  shows "loading_writes (handler b) = [''block'', ''none'']
       \<and> last (handler b) = LoadingDisplay ''none''
       \<and> loading_display (click b p) = ''none''"
proof -
  note h = handler_entered [OF assms]
  have c: "loading_writes (case snd (try_block b) of None \<Rightarrow> [] | Some e \<Rightarrow> catch_block b e) = []"
    by (cases "snd (try_block b)") (simp add: loading_writes_def, simp add: loading_writes_catch)
  have w: "loading_writes (handler b) = [''block'', ''none'']"
    unfolding h loading_writes_append loading_writes_try c by (simp add: loading_writes_def)
  have l: "last (handler b) = LoadingDisplay ''none''" by (simp add: h)
  have "handler b \<noteq> []" by (simp add: h)
  then have "loading_display (click b p) = ''none''"
    unfolding click_def using l by (rule foldl_apply_last)
  with w l show ?thesis by simp
qed

text \<open>
  Two runs that enter \<^verbatim>\<open>try\<close>: one whose request the network rejects, so that the
  \<^verbatim>\<open>catch\<close> block runs, and one that draws both plots.
\<close>

theorem loading_indicator_hidden_once_witness:
  "loading_writes (handler offline_browser) = [''block'', ''none'']
   \<and> last (handler offline_browser) = LoadingDisplay ''none''
   \<and> loading_display (click offline_browser (blank_page\<lparr>loading_display := ''block''\<rparr>)) = ''none''
   \<and> loading_writes (handler (demo_browser moic_example_reply)) = [''block'', ''none'']
   \<and> loading_display (click (demo_browser moic_example_reply) blank_page) = ''none''"
proof -
  have "snd (before_try offline_browser) = None"
    by (simp add: before_try_completes offline_browser_def demo_browser_def)
  from loading_indicator_hidden_once [OF this, of "blank_page\<lparr>loading_display := ''block''\<rparr>"]
    loading_indicator_hidden_once [OF demo_before_try, of moic_example_reply blank_page]
  show ?thesis by simp
qed

text \<open>
  The statements before \<^verbatim>\<open>try\<close> are outside it. On a page without Plotly the first
  \<^verbatim>\<open>Plotly.purge\<close> throws a ReferenceError that nothing catches: the run ends after three
  assignments, the \<^verbatim>\<open>finally\<close> block does not run, and the loading indicator stays
  visible.
\<close>

theorem plotly_missing_counterexample:
  "handler no_plotly_browser = [LoadingDisplay ''block'', ErrorDisplay ''none'', MetricsText '''']
   \<and> loading_writes (handler no_plotly_browser) = [''block'']
   \<and> LoadingDisplay ''none'' \<notin> set (handler no_plotly_browser)
   \<and> loading_display (click no_plotly_browser blank_page) = ''block''"
proof -
  have h: "handler no_plotly_browser
             = [LoadingDisplay ''block'', ErrorDisplay ''none'', MetricsText '''']"
    by (simp add: handler_def before_try_def no_plotly_browser_def demo_browser_def)
  show ?thesis
    by (simp add: h click_def loading_writes_def blank_page_def)
qed

subsection \<open>The error text of a failed request\<close>

lemma gather_total:
  "(\<And>i. f i = Some (g i)) \<Longrightarrow> gather f fs = Inr (map (\<lambda>(k, i, p). (k, parse p (g i))) fs)"
  by (induction fs) auto

lemma click_throws:
  "snd (before_try b) = None \<Longrightarrow> snd (try_block b) = Some e \<Longrightarrow>
   error_text (click b p) = ''Error: '' @ message b e \<and> error_display (click b p) = ''block''"
  by (simp add: click_def handler_entered catch_block_def)

lemma try_block_not_ok:
  "inputData (form b) = Inr kvs \<Longrightarrow> fetch b (make_request kvs) = Inr resp \<Longrightarrow>
   resp_json resp = Inr results \<Longrightarrow> \<not> resp_ok resp \<Longrightarrow>
   snd (try_block b) = Some (not_ok_error results)"
  by (simp add: try_block_def)

lemma click_not_ok:
  assumes "snd (before_try b) = None"
    "inputData (form b) = Inr kvs" "fetch b (make_request kvs) = Inr resp"
    "resp_json resp = Inr results" "\<not> resp_ok resp"
  shows "error_text (click b p) = ''Error: '' @ message b (not_ok_error results)"
    and "error_display (click b p) = ''block''"
  using click_throws [OF assms(1) try_block_not_ok [OF assms(2-5)], of p] by simp_all

lemma not_ok_error_string:
  "map_of props ''error'' = Some (JStr s) \<Longrightarrow> s \<noteq> [] \<Longrightarrow> not_ok_error (JObj props) = Error s"
  by (simp add: not_ok_error_def get_prop_def truthy_def)

lemma not_ok_error_empty:
  "map_of props ''error'' = Some (JStr []) \<Longrightarrow> not_ok_error (JObj props) = Error ''An unknown error occurred''"
  by (simp add: not_ok_error_def get_prop_def truthy_def)

lemma not_ok_error_absent:
  "map_of props ''error'' = None \<Longrightarrow> not_ok_error (JObj props) = Error ''An unknown error occurred''"
  by (simp add: not_ok_error_def get_prop_def truthy_def)

text \<open>
  Claim C3, as amended. When the run has entered \<^verbatim>\<open>try\<close> and the form is complete, for
  a reply with a non-success status whose body is a JSON object:
  when its \<^verbatim>\<open>error\<close> property is a non-empty string, the error text shown is
  \<^verbatim>\<open>Error: \<close> followed by that string; when the property is absent or is the
  empty string, the text is \<^verbatim>\<open>Error: An unknown error occurred\<close>; in every case the
  error node is made visible.
\<close>

theorem non_success_error_text:
  assumes "snd (before_try b) = None"
    "inputData (form b) = Inr kvs" "fetch b (make_request kvs) = Inr resp"
    "resp_json resp = Inr (JObj props)" "\<not> resp_ok resp"
  shows "(map_of props ''error'' = Some (JStr s) \<and> s \<noteq> [] \<longrightarrow>
            error_text (click b p) = ''Error: '' @ s)
       \<and> (map_of props ''error'' = None \<or> map_of props ''error'' = Some (JStr []) \<longrightarrow>
            error_text (click b p) = ''Error: An unknown error occurred'')
       \<and> error_display (click b p) = ''block''"
  using click_not_ok [OF assms, of p]
  by (auto simp: message_def not_ok_error_string not_ok_error_absent not_ok_error_empty)

lemma demo_inputData:
  "inputData (form (demo_browser reply)) = Inr (map (\<lambda>(k, i, p). (k, parse p ''1'')) input_fields)"
  unfolding inputData_def by (rule gather_total) (simp add: demo_browser_def)

text \<open>The reply \<^verbatim>\<open>{"error": "bad input"}\<close>, and the reply \<^verbatim>\<open>{}\<close>.\<close>

theorem non_success_error_text_witness:
  "error_text (click (demo_browser \<lparr>resp_ok = False, resp_json = Inr (JObj [(''error'', JStr ''bad input'')])\<rparr>) blank_page)
     = ''Error: bad input''
   \<and> error_text (click (demo_browser \<lparr>resp_ok = False, resp_json = Inr (JObj [])\<rparr>) blank_page)
     = ''Error: An unknown error occurred''"
proof -
  let ?r1 = "\<lparr>resp_ok = False, resp_json = Inr (JObj [(''error'', JStr ''bad input'')])\<rparr>"
  let ?r2 = "\<lparr>resp_ok = False, resp_json = Inr (JObj [])\<rparr>"
  have f: "fetch (demo_browser r) q = Inr r" for r q by (simp add: demo_browser_def)
  have 1: "error_text (click (demo_browser ?r1) blank_page) = ''Error: bad input''"
    using non_success_error_text [OF demo_before_try demo_inputData f, of ?r1 "[(''error'', JStr ''bad input'')]" "''bad input''" blank_page]
    by simp
  have 2: "error_text (click (demo_browser ?r2) blank_page) = ''Error: An unknown error occurred''"
    using non_success_error_text [OF demo_before_try demo_inputData f, of ?r2 "[]" "''''" blank_page]
    by simp
  from 1 2 show ?thesis by simp
qed

text \<open>
  An \<^verbatim>\<open>error\<close> property that is the empty string is falsy, so
  \<^verbatim>\<open>results.error || "An unknown error occurred"\<close> takes the fallback: the text shown
  is not \<^verbatim>\<open>Error: \<close> followed by the property.
\<close>

theorem empty_error_string_counterexample:
  "error_text (click (demo_browser \<lparr>resp_ok = False, resp_json = Inr (JObj [(''error'', JStr '''')])\<rparr>) blank_page)
     = ''Error: An unknown error occurred''
   \<and> error_text (click (demo_browser \<lparr>resp_ok = False, resp_json = Inr (JObj [(''error'', JStr '''')])\<rparr>) blank_page)
     \<noteq> ''Error: '' @ ''''"
proof -
  let ?r = "\<lparr>resp_ok = False, resp_json = Inr (JObj [(''error'', JStr '''')])\<rparr>"
  have f: "fetch (demo_browser ?r) q = Inr ?r" for q by (simp add: demo_browser_def)
  have "error_text (click (demo_browser ?r) blank_page)
          = ''Error: '' @ message (demo_browser ?r) (not_ok_error (JObj [(''error'', JStr '''')]))"
    by (rule click_not_ok(1) [OF demo_before_try demo_inputData f]) simp_all
  then show ?thesis by (simp add: not_ok_error_empty message_def)
qed

subsection \<open>The precedence of the formatting rules\<close>

lemma render_entry_precedence:
  "render_entry b key v = format_branch b (earliest_branch key v) key v"
  by (simp add: render_entry_def earliest_branch_def matching_branches_def precedence_def
      format_branch_def is_string_def)

lemma moic_val_example: "earliest_branch ''MOIC Val'' (JNum n) = Multiple"
  by (simp add: earliest_branch_def matching_branches_def precedence_def is_string_def
      str_includes_def sublist_code)

text \<open>
  Claim C10. Every entry is formatted by exactly one kind of line, the earliest in the
  order: empty string, other string, key with \<^verbatim>\<open>IRR\<close> or \<^verbatim>\<open>P(\<close>, key with
  \<^verbatim>\<open>MOIC\<close>, key with \<^verbatim>\<open>Val\<close> or \<^verbatim>\<open>Proceeds\<close>, two-decimal default. Some kind
  always applies; the if-chain of the source prints what the earliest applicable kind
  prints; a numeric entry whose key holds both \<^verbatim>\<open>MOIC\<close> and \<^verbatim>\<open>Val\<close> is a multiple.
\<close>

theorem one_branch_by_precedence:
  "matching_branches key v \<noteq> []
   \<and> render_entry b key v = format_branch b (earliest_branch key v) key v
   \<and> earliest_branch ''MOIC Val'' (JNum n) = Multiple"
  using render_entry_precedence [of b key v] moic_val_example [of n]
  by (simp add: matching_branches_def precedence_def)

subsection \<open>The input of the MOIC histogram\<close>

lemma try_block_ok:
  "inputData (form b) = Inr kvs \<Longrightarrow> fetch b (make_request kvs) = Inr resp \<Longrightarrow>
   resp_json resp = Inr results \<Longrightarrow> resp_ok resp \<Longrightarrow>
   try_block b = (FetchCall (make_request kvs) # fst (render_results b results),
                  snd (render_results b results))"
  by (simp add: try_block_def)

lemma render_results_ok:
  "object_entries (map_of props ''metrics'') = Inr entries \<Longrightarrow>
   render_loop b '''' entries = Inr report \<Longrightarrow>
   map_of props ''plot_data_moic'' = Some (JArr ms) \<Longrightarrow>
   render_results b (JObj props) =
     ([MetricsText (trim report),
       NewPlot IrrPlot (irrTrace (map_of props ''plot_data_irr'')) irrLayout,
       NewPlot MoicPlot (moicTrace (filter (\<lambda>m. js_gt (to_number b m) moic_threshold) ms)) moicLayout],
      None)"
  by (simp add: render_results_def get_prop_def moic_filter_def)

lemma click_ok:
  assumes "snd (before_try b) = None"
    "inputData (form b) = Inr kvs" "fetch b (make_request kvs) = Inr resp"
    "resp_json resp = Inr (JObj props)" "resp_ok resp"
    "object_entries (map_of props ''metrics'') = Inr entries"
    "render_loop b '''' entries = Inr report"
    "map_of props ''plot_data_moic'' = Some (JArr ms)"
  shows "moic_plot (click b p) =
           Some (moicTrace (filter (\<lambda>m. js_gt (to_number b m) moic_threshold) ms), moicLayout)"
    and "metrics_text (click b p) = trim report"
  using try_block_ok [OF assms(2-5)] render_results_ok [OF assms(6-8)]
  by (simp_all add: click_def handler_entered [OF assms(1)])

lemma filter_numbers:
  "filter (\<lambda>m. js_gt (to_number b m) t) (map JNum ns) = map JNum (filter (\<lambda>n. js_gt n t) ns)"
  by (induction ns) (simp_all add: to_number_def)

text \<open>
  Claim C9. When the run has entered \<^verbatim>\<open>try\<close>, the reply is a success and the report
  has been rendered, the
  \<^verbatim>\<open>x\<close> of the trace drawn in the MOIC plot is the array of the elements of
  \<^verbatim>\<open>plot_data_moic\<close> that are greater than the Number \<^verbatim>\<open>0.01\<close>, in their order.
\<close>

theorem moic_trace_input:
  assumes "snd (before_try b) = None"
    "inputData (form b) = Inr kvs" "fetch b (make_request kvs) = Inr resp"
    "resp_json resp = Inr (JObj props)" "resp_ok resp"
    "object_entries (map_of props ''metrics'') = Inr entries"
    "render_loop b '''' entries = Inr report"
    "map_of props ''plot_data_moic'' = Some (JArr (map JNum ns))"
  shows "\<exists>t l. moic_plot (click b p) = Some (t, l)
           \<and> trace_x t = Some (JArr (map JNum (filter (\<lambda>n. js_gt n moic_threshold) ns)))"
  using click_ok(1) [OF assms, of p] by (simp add: filter_numbers moicTrace_def)

lemma moic_example_filter:
  "filter (\<lambda>n. js_gt n moic_threshold) [double_of_rat (1 / 1000), double_of_rat (2 / 100), Fin 5, Fin 10]
     = [double_of_rat (2 / 100), Fin 5, Fin 10]"
  by code_simp

text \<open>For \<^verbatim>\<open>plot_data_moic = [0.001, 0.02, 5, 10]\<close> the trace holds 0.02, 5 and 10.\<close>

theorem moic_trace_input_witness:
  "\<exists>t l. moic_plot (click (demo_browser moic_example_reply) blank_page) = Some (t, l)
      \<and> trace_x t = Some (JArr (map JNum [double_of_rat (2 / 100), Fin 5, Fin 10]))"
proof -
  have f: "fetch (demo_browser r) q = Inr r" for r q by (simp add: demo_browser_def)
  have "\<exists>t l. moic_plot (click (demo_browser moic_example_reply) blank_page) = Some (t, l)
      \<and> trace_x t = Some (JArr (map JNum (filter (\<lambda>n. js_gt n moic_threshold) moic_example)))"
    by (rule moic_trace_input [OF demo_before_try demo_inputData f, where entries = "[]" and report = "[]"
          and props = moic_example_body and ns = moic_example])
      (simp_all add: moic_example_reply_def moic_example_body_def object_entries_def)
  then show ?thesis
    unfolding moic_example_def by (simp only: moic_example_filter)
qed

subsection \<open>Section headers\<close>

lemma last_dropWhile: "dropWhile P xs \<noteq> [] \<Longrightarrow> last (dropWhile P xs) = last xs"
  by (induction xs) (auto split: if_splits)

lemma dropWhile_before:
  assumes "key \<noteq> []" "\<not> P (hd key)"
  shows "\<exists>A'. dropWhile P (A @ key @ B) = A' @ key @ B \<and> (A' = [] \<or> (A \<noteq> [] \<and> last A' = last A))"
proof (cases "\<forall>x\<in>set A. P x")
  case True
  from assms have "dropWhile P (key @ B) = key @ B"
    by (cases key) auto
  with True show ?thesis by (auto simp: dropWhile_append)
next
  case False
  then have ne: "dropWhile P A \<noteq> []" by auto
  then have "A \<noteq> []" by auto
  moreover from False have "dropWhile P (A @ key @ B) = dropWhile P A @ key @ B"
    by (auto simp: dropWhile_append)
  ultimately show ?thesis using last_dropWhile [OF ne] by auto
qed

lemma trim_keeps_line:
  assumes "key \<noteq> []" "\<not> is_white_space (hd key)" "\<not> is_white_space (last key)"
  shows "own_line (trim (pre @ newline @ key @ newline @ post)) key"
proof -
  obtain A' where A': "trim_start ((pre @ newline) @ key @ (newline @ post)) = A' @ key @ (newline @ post)"
      "A' = [] \<or> last A' = CHR 0x0A"
    using dropWhile_before [of key is_white_space "pre @ newline" "newline @ post"] assms(1,2)
    by (auto simp: trim_start_def newline_def)
  from assms have r: "rev key \<noteq> []" "\<not> is_white_space (hd (rev key))"
    by (simp_all add: hd_rev)
  obtain B' where B': "trim_start (rev (newline @ post) @ rev key @ rev A') = B' @ rev key @ rev A'"
      "B' = [] \<or> last B' = CHR 0x0A"
    using dropWhile_before [of "rev key" is_white_space "rev (newline @ post)" "rev A'"] r
    by (auto simp: trim_start_def newline_def)
  have "trim (pre @ newline @ key @ newline @ post) = A' @ key @ rev B'"
    using A'(1) B'(1) by (simp add: trim_def)
  moreover have "rev B' = [] \<or> hd (rev B') = CHR 0x0A"
    using B'(2) by (auto simp: hd_rev)
  ultimately show ?thesis
    unfolding own_line_def using A'(2) by blast
qed

lemma render_loop_extends:
  "render_loop b acc entries = Inr report \<Longrightarrow> \<exists>u. report = acc @ u"
proof (induction entries arbitrary: acc)
  case Nil
  then show ?case by simp
next
  case (Cons e entries)
  obtain k v where e: "e = (k, v)" by (cases e)
  from Cons.prems e obtain line where "render_loop b (acc @ line) entries = Inr report"
    by (auto split: sum.splits)
  from Cons.IH [OF this] show ?case by auto
qed

lemma render_loop_header:
  "render_loop b acc entries = Inr report \<Longrightarrow> (key, JStr '''') \<in> set entries \<Longrightarrow>
   \<exists>pre post. report = pre @ newline @ key @ newline @ post"
proof (induction entries arbitrary: acc)
  case Nil
  then show ?case by simp
next
  case (Cons e entries)
  obtain k v where e: "e = (k, v)" by (cases e)
  from Cons.prems(1) e obtain line where line: "render_entry b k v = Inr line"
      and rest: "render_loop b (acc @ line) entries = Inr report"
    by (auto split: sum.splits)
  show ?case
  proof (cases "(key, JStr '''') = e")
    case True
    with e have "k = key" and "v = JStr []" by auto
    with line have "line = newline @ key @ newline"
      by (simp add: render_entry_def is_string_def)
    with render_loop_extends [OF rest] show ?thesis by auto
  next
    case False
    with Cons.prems(2) have "(key, JStr '''') \<in> set entries" by auto
    from Cons.IH [OF rest this] show ?thesis .
  qed
qed

text \<open>
  Claim C5, as amended. After a report has been rendered, every entry whose value is the
  empty string and whose key is not empty and neither begins nor ends with white space
  stands in the text shown (the trimmed report) alone on a line of its own: the key, with
  the start of the text or a line feed before it and the end of the text or a line feed
  after it.
\<close>

theorem section_header_line:
  assumes "render_loop b '''' entries = Inr report" "(key, JStr '''') \<in> set entries"
    "key \<noteq> []" "\<not> is_white_space (hd key)" "\<not> is_white_space (last key)"
  shows "own_line (trim report) key"
proof -
  from render_loop_header [OF assms(1,2)] obtain pre post
    where "report = pre @ newline @ key @ newline @ post" by blast
  with trim_keeps_line [OF assms(3-5)] show ?thesis by simp
qed

lemma header_example_report:
  "render_loop b '''' header_example
     = Inr (newline @ ''--- Returns ---'' @ newline @ padEnd ''Model'' 32 @ '': trimodal'' @ newline)"
  by (simp add: header_example_def render_entry_def is_string_def)

text \<open>A report of a section header followed by a line of text.\<close>

theorem section_header_line_witness:
  "own_line (trim (newline @ ''--- Returns ---'' @ newline @ padEnd ''Model'' 32 @ '': trimodal'' @ newline))
     ''--- Returns ---''"
  by (rule section_header_line [OF header_example_report [of "demo_browser moic_example_reply"]])
    (simp_all add: header_example_def is_white_space_def)

text \<open>
  A header that begins with a space, as the only entry: \<^verbatim>\<open>trim\<close> removes the space
  together with the line feed before it, and the text shown does not hold the key.
\<close>

theorem trimmed_header_counterexample:
  "render_loop (demo_browser moic_example_reply) '''' [('' A'', JStr '''')] = Inr (newline @ '' A'' @ newline)
   \<and> trim (newline @ '' A'' @ newline) = ''A''
   \<and> \<not> own_line ''A'' '' A''"
proof -
  have "\<not> own_line ''A'' '' A''"
    unfolding own_line_def
  proof
    assume "\<exists>pre post. ''A'' = pre @ '' A'' @ post
      \<and> (pre = [] \<or> last pre = CHR 0x0A) \<and> (post = [] \<or> hd post = CHR 0x0A)"
    then obtain pre post where "''A'' = pre @ '' A'' @ post" by blast
    then have "length ''A'' = length (pre @ '' A'' @ post)" by (rule arg_cong)
    then show False by simp
  qed
  then show ?thesis
    by (simp add: render_entry_def is_string_def trim_def trim_start_def newline_def is_white_space_def)
qed

subsection \<open>Two decimal places\<close>

lemma decimal_digit: "n < 10 \<Longrightarrow> decimal n = [digit_char n]"
  by (subst decimal.simps) simp

lemma decimal_step: "10 \<le> n \<Longrightarrow> decimal n = decimal (n div 10) @ [digit_char (n mod 10)]"
  by (subst decimal.simps) simp

lemma decimal_not_Nil: "decimal n \<noteq> []"
  by (subst decimal.simps) simp

lemma decimal_two: "10 \<le> n \<Longrightarrow> n < 100 \<Longrightarrow> decimal n = [digit_char (n div 10), digit_char (n mod 10)]"
  by (simp add: decimal_step decimal_digit)

lemma decimal_hundreds:
  "100 \<le> n \<Longrightarrow> decimal n = decimal (n div 100) @ [digit_char (n div 10 mod 10), digit_char (n mod 10)]"
proof -
  assume n: "100 \<le> n"
  then have "10 \<le> n div 10" by simp
  then have "decimal (n div 10) = decimal (n div 10 div 10) @ [digit_char (n div 10 mod 10)]"
    by (rule decimal_step)
  moreover have "n div 10 div 10 = n div 100" by (simp add: div_mult2_eq [symmetric])
  ultimately show ?thesis using n by (simp add: decimal_step)
qed

lemma digit_char_0: "digit_char 0 = CHR ''0''"
  by (simp add: digit_char_def char_of_def)

lemma fixed_two_digits:
  assumes "0 \<le> n"
  defines "m \<equiv> (if n = 0 then ''0'' else decimal n)"
  defines "m' \<equiv> (if length m \<le> 2 then zeros (2 + 1 - length m) @ m else m)"
  shows "take (length m' - 2) m' @ ''.'' @ drop (length m' - 2) m'
           = decimal (n div 100) @ ''.'' @ [digit_char (n mod 100 div 10), digit_char (n mod 10)]"
proof -
  have m: "m = decimal n"
    by (simp add: m_def decimal_digit digit_char_0)
  consider "n < 10" | "10 \<le> n" "n < 100" | "100 \<le> n" by linarith
  then show ?thesis
  proof cases
    case 1
    with assms(1) have "n div 100 = 0" "n mod 100 div 10 = 0" "n mod 10 = n" by simp_all
    with 1 show ?thesis
      by (simp add: m m'_def decimal_digit zeros_def digit_char_0)
  next
    case 2
    with assms(1) have "n div 100 = 0" "n mod 100 div 10 = n div 10" by simp_all
    with 2 show ?thesis
      by (simp add: m m'_def decimal_two decimal_digit zeros_def digit_char_0)
  next
    case 3
    have "n mod (10 * 10) = 10 * (n div 10 mod 10) + n mod 10"
      by (rule zmod_zmult2_eq) simp
    then have "n mod 100 div 10 = n div 10 mod 10" by simp
    with decimal_hundreds [OF 3] show ?thesis
      by (simp add: m m'_def decimal_not_Nil)
  qed
qed

lemma toFixed_two_decimals: "\<bar>q\<bar> < 10 ^ 21 \<Longrightarrow> toFixed (Fin q) 2 = two_decimals q"
  using fixed_two_digits [of "\<lfloor>\<bar>q\<bar> * 100 + 1 / 2\<rfloor>"]
  by (simp add: toFixed_def two_decimals_def is_infinite_def rat_of_def Let_def)

subsection \<open>The lines of numeric entries\<close>

lemma prefix_includes: "prefix pat key \<Longrightarrow> str_includes key pat"
  by (simp add: str_includes_def prefix_imp_sublist)

lemma render_percentage:
  "str_includes key ''IRR'' \<or> str_includes key ''P('' \<Longrightarrow>
   render_entry b key (JNum v)
     = Inr (padEnd key 32 @ '': '' @ toFixed (js_mul v (Fin 100)) 2 @ ''%'' @ newline)"
  by (simp add: render_entry_def is_string_def to_number_def)

lemma render_multiple:
  "\<not> str_includes key ''IRR'' \<Longrightarrow> \<not> str_includes key ''P('' \<Longrightarrow> str_includes key ''MOIC'' \<Longrightarrow>
   render_entry b key (JNum v) = Inr (padEnd key 32 @ '': '' @ toFixed v 2 @ ''x'' @ newline)"
  by (simp add: render_entry_def is_string_def value_toFixed_def)

lemma render_currency:
  "\<not> str_includes key ''IRR'' \<Longrightarrow> \<not> str_includes key ''P('' \<Longrightarrow> \<not> str_includes key ''MOIC'' \<Longrightarrow>
   str_includes key ''Val'' \<or> str_includes key ''Proceeds'' \<Longrightarrow>
   render_entry b key (JNum v)
     = Inr (padEnd key 32 @ '': $'' @ to_locale_string b (math_round v) @ newline)"
  by (simp add: render_entry_def is_string_def to_number_def)

text \<open>
  Claim C6, as amended. For a numeric value \<open>v\<close> under a key that contains \<^verbatim>\<open>IRR\<close> or
  begins with \<^verbatim>\<open>P(\<close>, the line is the key padded to 32 columns, the separator,
  \<^verbatim>\<open>(v * 100).toFixed(2)\<close> and a percent sign; and when the product is finite and below
  \<open>10^21\<close> in magnitude, that text is the product rounded to two decimal places.
\<close>

theorem percentage_line:
  assumes "str_includes key ''IRR'' \<or> prefix ''P('' key"
  shows "render_entry b key (JNum v)
           = Inr (padEnd key 32 @ '': '' @ toFixed (js_mul v (Fin 100)) 2 @ ''%'' @ newline)
       \<and> (\<forall>p. js_mul v (Fin 100) = Fin p \<and> \<bar>p\<bar> < 10 ^ 21 \<longrightarrow>
             toFixed (js_mul v (Fin 100)) 2 = two_decimals p)"
  using assms render_percentage [of key b v] prefix_includes [of "''P(''" key]
  by (auto simp: toFixed_two_decimals)

lemma irr_example_product:
  "js_mul (double_of_rat (1234 / 10000)) (Fin 100) = Fin (3473401212609495 / 281474976710656)"
  by code_simp

lemma irr_example_digits: "two_decimals (3473401212609495 / 281474976710656) = ''12.34''"
  by code_simp

lemma irr_example_key: "str_includes ''Mean IRR'' ''IRR''"
  by code_simp

text \<open>The key \<^verbatim>\<open>Mean IRR\<close> with the value \<^verbatim>\<open>0.1234\<close> prints \<^verbatim>\<open>12.34%\<close>.\<close>

theorem percentage_line_witness:
  "render_entry (demo_browser moic_example_reply) ''Mean IRR'' (JNum (double_of_rat (1234 / 10000)))
     = Inr (padEnd ''Mean IRR'' 32 @ '': 12.34%'' @ newline)"
proof -
  have "\<bar>3473401212609495 / 281474976710656 :: rat\<bar> < 10 ^ 21" by simp
  with percentage_line [of "''Mean IRR''" "demo_browser moic_example_reply" "double_of_rat (1234 / 10000)"]
    irr_example_key irr_example_product
  show ?thesis by (simp add: irr_example_digits)
qed

lemma large_percentage_product: "js_mul (Fin (10 ^ 19)) (Fin 100) = Fin (10 ^ 21)"
  by code_simp

lemma large_percentage_digits: "toFixed (Fin (10 ^ 21)) 2 = ''1e+21''"
  by code_simp

lemma large_percentage_two_decimals: "two_decimals (10 ^ 21) = ''1000000000000000000000.00''"
  by code_simp

text \<open>
  The value \<^verbatim>\<open>1e19\<close>: the product is \<open>10^21\<close>, which \<^verbatim>\<open>toFixed\<close> prints in
  exponent notation, without decimal places.
\<close>

theorem large_percentage_counterexample:
  "render_entry (demo_browser moic_example_reply) ''Mean IRR'' (JNum (Fin (10 ^ 19)))
     = Inr (padEnd ''Mean IRR'' 32 @ '': 1e+21%'' @ newline)
   \<and> render_entry (demo_browser moic_example_reply) ''Mean IRR'' (JNum (Fin (10 ^ 19)))
     \<noteq> Inr (padEnd ''Mean IRR'' 32 @ '': '' @ two_decimals (10 ^ 21) @ ''%'' @ newline)"
proof -
  have "render_entry (demo_browser moic_example_reply) ''Mean IRR'' (JNum (Fin (10 ^ 19)))
      = Inr (padEnd ''Mean IRR'' 32 @ '': '' @ toFixed (js_mul (Fin (10 ^ 19)) (Fin 100)) 2 @ ''%'' @ newline)"
    by (rule render_percentage) (rule disjI1, rule irr_example_key)
  then show ?thesis
    unfolding large_percentage_product large_percentage_digits large_percentage_two_decimals
    by simp
qed

text \<open>
  Claim C7, as amended. For a numeric value \<open>v\<close> under a key that contains \<^verbatim>\<open>MOIC\<close>
  and neither \<^verbatim>\<open>IRR\<close> nor \<^verbatim>\<open>P(\<close>, the line is the padded key, the separator,
  \<^verbatim>\<open>v.toFixed(2)\<close> and an \<^verbatim>\<open>x\<close>; and when \<open>v\<close> is finite and below \<open>10^21\<close> in
  magnitude, that text is \<open>v\<close> rounded to two decimal places.
\<close>

theorem multiple_line:
  assumes "str_includes key ''MOIC''" "\<not> str_includes key ''IRR''" "\<not> str_includes key ''P(''"
  shows "render_entry b key (JNum v) = Inr (padEnd key 32 @ '': '' @ toFixed v 2 @ ''x'' @ newline)
       \<and> (\<forall>q. v = Fin q \<and> \<bar>q\<bar> < 10 ^ 21 \<longrightarrow> toFixed v 2 = two_decimals q)"
  using render_multiple [OF assms(2,3,1), of b v]
  by (auto simp: toFixed_two_decimals)

lemma moic_example_key:
  "str_includes ''Mean MOIC'' ''MOIC'' \<and> \<not> str_includes ''Mean MOIC'' ''IRR''
   \<and> \<not> str_includes ''Mean MOIC'' ''P(''"
  by code_simp

lemma moic_example_digits: "two_decimals (5 / 2) = ''2.50''"
  by code_simp

text \<open>The key \<^verbatim>\<open>Mean MOIC\<close> with the value \<^verbatim>\<open>2.5\<close> prints \<^verbatim>\<open>2.50x\<close>.\<close>

theorem multiple_line_witness:
  "render_entry (demo_browser moic_example_reply) ''Mean MOIC'' (JNum (Fin (5 / 2)))
     = Inr (padEnd ''Mean MOIC'' 32 @ '': 2.50x'' @ newline)"
proof -
  have "\<bar>5 / 2 :: rat\<bar> < 10 ^ 21" by simp
  with multiple_line [of "''Mean MOIC''" "demo_browser moic_example_reply" "Fin (5 / 2)"]
    moic_example_key
  have "render_entry (demo_browser moic_example_reply) ''Mean MOIC'' (JNum (Fin (5 / 2)))
      = Inr (padEnd ''Mean MOIC'' 32 @ '': '' @ toFixed (Fin (5 / 2)) 2 @ ''x'' @ newline)"
    and "toFixed (Fin (5 / 2)) 2 = two_decimals (5 / 2)"
    by blast+
  then show ?thesis
    unfolding moic_example_digits by simp
qed

lemma probability_key:
  "str_includes ''P(MOIC > 3x)'' ''MOIC'' \<and> str_includes ''P(MOIC > 3x)'' ''P(''"
  by code_simp

lemma probability_digits: "toFixed (js_mul (Fin (1 / 2)) (Fin 100)) 2 = ''50.00''"
  by code_simp

text \<open>
  A key that contains \<^verbatim>\<open>MOIC\<close> and begins with \<^verbatim>\<open>P(\<close> is a percentage: the
  earlier branch of the if-chain takes it.
\<close>

theorem probability_of_moic_counterexample:
  "str_includes ''P(MOIC > 3x)'' ''MOIC''
   \<and> render_entry (demo_browser moic_example_reply) ''P(MOIC > 3x)'' (JNum (Fin (1 / 2)))
     = Inr (padEnd ''P(MOIC > 3x)'' 32 @ '': 50.00%'' @ newline)
   \<and> render_entry (demo_browser moic_example_reply) ''P(MOIC > 3x)'' (JNum (Fin (1 / 2)))
     \<noteq> Inr (padEnd ''P(MOIC > 3x)'' 32 @ '': 0.50x'' @ newline)"
proof -
  have "render_entry (demo_browser moic_example_reply) ''P(MOIC > 3x)'' (JNum (Fin (1 / 2)))
      = Inr (padEnd ''P(MOIC > 3x)'' 32 @ '': '' @ toFixed (js_mul (Fin (1 / 2)) (Fin 100)) 2 @ ''%'' @ newline)"
    by (rule render_percentage) (simp add: probability_key)
  then show ?thesis
    unfolding probability_digits using probability_key by simp
qed

lemma math_round_finite:
  "\<not> (- (1 / 2) \<le> q \<and> q < 0) \<Longrightarrow> math_round (Fin q) = Fin (of_int \<lfloor>q + 1 / 2\<rfloor>)"
  by (auto simp: math_round_def)

lemma round_in_range:
  fixes q :: rat
  assumes "\<bar>q\<bar> < 2 ^ 53"
  shows "\<bar>\<lfloor>q + 1 / 2\<rfloor>\<bar> \<le> 2 ^ 53"
proof -
  from assms have a: "q < 2 ^ 53" "- (2 ^ 53) < q" by (simp_all add: abs_less_iff)
  have "q + 1 / 2 < of_int (2 ^ 53 + 1)" using a(1) by simp
  then have "\<lfloor>q + 1 / 2\<rfloor> < 2 ^ 53 + 1" by (simp only: floor_less_iff)
  moreover have "of_int (- (2 ^ 53)) \<le> q + 1 / 2" using a(2) by simp
  then have "- (2 ^ 53) \<le> \<lfloor>q + 1 / 2\<rfloor>" by (simp only: le_floor_iff)
  ultimately show ?thesis by linarith
qed

text \<open>
  Claim C8, as amended. For a numeric value \<open>v\<close> under a key that contains \<^verbatim>\<open>Val\<close> or
  \<^verbatim>\<open>Proceeds\<close> and none of \<^verbatim>\<open>IRR\<close>, \<^verbatim>\<open>P(\<close>, \<^verbatim>\<open>MOIC\<close>, the line is the padded
  key, the separator, a dollar sign and \<^verbatim>\<open>Math.round(v)\<close> as the browser's locale prints
  it; in an en-US locale, for a finite \<open>v\<close> below \<open>2^53\<close> in magnitude that does not round
  to negative zero, this is the nearest integer (a tie upwards) with its digits grouped in
  threes by commas.
\<close>

theorem currency_line:
  assumes "str_includes key ''Val'' \<or> str_includes key ''Proceeds''"
    "\<not> str_includes key ''IRR''" "\<not> str_includes key ''P(''" "\<not> str_includes key ''MOIC''"
  shows "render_entry b key (JNum v)
           = Inr (padEnd key 32 @ '': $'' @ to_locale_string b (math_round v) @ newline)
       \<and> (\<forall>q. en_US b \<and> v = Fin q \<and> \<bar>q\<bar> < 2 ^ 53 \<and> \<not> (- (1 / 2) \<le> q \<and> q < 0) \<longrightarrow>
             render_entry b key (JNum v)
               = Inr (padEnd key 32 @ '': $'' @ en_US_integer \<lfloor>q + 1 / 2\<rfloor> @ newline))"
proof -
  have r: "render_entry b key (JNum v)
      = Inr (padEnd key 32 @ '': $'' @ to_locale_string b (math_round v) @ newline)"
    by (rule render_currency [OF assms(2,3,4,1)])
  have "to_locale_string b (math_round (Fin q)) = en_US_integer \<lfloor>q + 1 / 2\<rfloor>"
    if "en_US b" "\<bar>q\<bar> < 2 ^ 53" "\<not> (- (1 / 2) \<le> q \<and> q < 0)" for q
  proof -
    have "\<bar>\<lfloor>q + 1 / 2\<rfloor>\<bar> \<le> 2 ^ 53" using that(2) by (rule round_in_range)
    with that(1) have "to_locale_string b (Fin (of_int \<lfloor>q + 1 / 2\<rfloor>)) = en_US_integer \<lfloor>q + 1 / 2\<rfloor>"
      unfolding en_US_def by blast
    with that(3) show ?thesis by (simp add: math_round_finite)
  qed
  with r show ?thesis by auto
qed

lemma demo_en_US: "en_US (demo_browser reply)"
  by (simp add: en_US_def demo_browser_def demo_locale_string_def)

lemma val_example_key:
  "str_includes ''Exit Val'' ''Val'' \<and> \<not> str_includes ''Exit Val'' ''IRR''
   \<and> \<not> str_includes ''Exit Val'' ''P('' \<and> \<not> str_includes ''Exit Val'' ''MOIC''"
  by code_simp

lemma val_example_number: "double_of_rat (12345678 / 10) = Fin (5302428325694669 / 4294967296)"
  by code_simp

lemma val_example_digits: "en_US_integer \<lfloor>5302428325694669 / 4294967296 + 1 / 2 :: rat\<rfloor> = ''1,234,568''"
  by code_simp

text \<open>The key \<^verbatim>\<open>Exit Val\<close> with the value \<^verbatim>\<open>1234567.8\<close> prints \<^verbatim>\<open>$1,234,568\<close>.\<close>

theorem currency_line_witness:
  "render_entry (demo_browser moic_example_reply) ''Exit Val'' (JNum (double_of_rat (12345678 / 10)))
     = Inr (padEnd ''Exit Val'' 32 @ '': $1,234,568'' @ newline)"
proof -
  have "\<bar>5302428325694669 / 4294967296 :: rat\<bar> < 2 ^ 53"
    "\<not> (- (1 / 2) \<le> (5302428325694669 / 4294967296 :: rat) \<and> (5302428325694669 / 4294967296 :: rat) < 0)"
    by simp_all
  with currency_line [of "''Exit Val''" "demo_browser moic_example_reply" "Fin (5302428325694669 / 4294967296)"]
    val_example_key demo_en_US [of moic_example_reply]
  have "render_entry (demo_browser moic_example_reply) ''Exit Val'' (JNum (Fin (5302428325694669 / 4294967296)))
     = Inr (padEnd ''Exit Val'' 32 @ '': $'' @ en_US_integer \<lfloor>5302428325694669 / 4294967296 + 1 / 2 :: rat\<rfloor> @ newline)"
    by blast
  then show ?thesis
    unfolding val_example_number val_example_digits by simp
qed

lemma val_moic_key:
  "str_includes ''Exit Val / MOIC'' ''Val'' \<and> str_includes ''Exit Val / MOIC'' ''MOIC''
   \<and> \<not> str_includes ''Exit Val / MOIC'' ''IRR'' \<and> \<not> str_includes ''Exit Val / MOIC'' ''P(''"
  by code_simp

lemma val_moic_digits: "toFixed (Fin (5302428325694669 / 4294967296)) 2 = ''1234567.80''"
  by code_simp

text \<open>
  A key that contains both \<^verbatim>\<open>Val\<close> and \<^verbatim>\<open>MOIC\<close> is a multiple: the earlier branch
  of the if-chain takes it.
\<close>

theorem currency_key_with_moic_counterexample:
  "str_includes ''Exit Val / MOIC'' ''Val''
   \<and> render_entry (demo_browser moic_example_reply) ''Exit Val / MOIC'' (JNum (double_of_rat (12345678 / 10)))
     = Inr (padEnd ''Exit Val / MOIC'' 32 @ '': 1234567.80x'' @ newline)
   \<and> render_entry (demo_browser moic_example_reply) ''Exit Val / MOIC'' (JNum (double_of_rat (12345678 / 10)))
     \<noteq> Inr (padEnd ''Exit Val / MOIC'' 32 @ '': $1,234,568'' @ newline)"
proof -
  have "render_entry (demo_browser moic_example_reply) ''Exit Val / MOIC'' (JNum (double_of_rat (12345678 / 10)))
      = Inr (padEnd ''Exit Val / MOIC'' 32 @ '': '' @ toFixed (double_of_rat (12345678 / 10)) 2 @ ''x'' @ newline)"
    by (rule render_multiple) (simp_all add: val_moic_key)
  then show ?thesis
    unfolding val_example_number val_moic_digits using val_moic_key by simp
qed

subsection \<open>The request body\<close>

lemma gather_keys: "gather f fs = Inr kvs \<Longrightarrow> map fst kvs = map fst fs"
  by (induction fs arbitrary: kvs) (auto split: option.splits sum.splits)

lemma gather_member:
  "gather f fs = Inr kvs \<Longrightarrow> (key, i, p) \<in> set fs \<Longrightarrow> f i = Some s \<Longrightarrow> (key, parse p s) \<in> set kvs"
  by (induction fs arbitrary: kvs) (auto split: option.splits sum.splits)

lemma gather_values:
  "gather f fs = Inr kvs \<Longrightarrow> (key, v) \<in> set kvs \<Longrightarrow>
   \<exists>i p s. (key, i, p) \<in> set fs \<and> f i = Some s \<and> v = parse p s"
proof (induction fs arbitrary: kvs)
  case Nil
  then show ?case by simp
next
  case (Cons x fs)
  obtain k i p where x: "x = (k, i, p)" by (cases x)
  from Cons.prems(1) x obtain s rest where s: "f i = Some s"
      and rest: "gather f fs = Inr rest" and kvs: "kvs = (k, parse p s) # rest"
    by (auto split: option.splits sum.splits)
  from Cons.prems(2) kvs consider "key = k" "v = parse p s" | "(key, v) \<in> set rest" by auto
  then show ?case
  proof cases
    case 1
    with s x show ?thesis by auto
  next
    case 2
    from Cons.IH [OF rest 2] show ?thesis by auto
  qed
qed

lemma gather_defined:
  "(\<And>key i p. (key, i, p) \<in> set fs \<Longrightarrow> f i \<noteq> None) \<Longrightarrow> \<exists>kvs. gather f fs = Inr kvs"
proof (induction fs)
  case Nil
  then show ?case by simp
next
  case (Cons x fs)
  obtain key i p where x: "x = (key, i, p)" by (cases x)
  from Cons.prems [of key i p] x obtain s where "f i = Some s" by auto
  moreover have "\<exists>kvs. gather f fs = Inr kvs"
    by (rule Cons.IH) (use Cons.prems in auto)
  then obtain kvs where "gather f fs = Inr kvs" ..
  ultimately show ?case using x by simp
qed

lemma request_sent:
  "snd (before_try b) = None \<Longrightarrow> inputData (form b) = Inr kvs \<Longrightarrow>
   FetchCall (make_request kvs) \<in> set (handler b)"
  by (simp add: handler_entered try_block_def split: sum.splits)

lemma request_not_sent:
  "snd (before_try b) \<noteq> None \<Longrightarrow> FetchCall r \<notin> set (handler b)"
  by (auto simp: handler_def before_try_def split: option.splits if_splits)

lemma request_sent_iff:
  "inputData (form b) = Inr kvs \<Longrightarrow>
   FetchCall (make_request kvs) \<in> set (handler b) \<longleftrightarrow> snd (before_try b) = None"
  using request_sent [of b kvs] request_not_sent [of b "make_request kvs"] by blast

lemma join_includes: "x \<in> set xs \<Longrightarrow> sublist x (join sep xs)"
proof (induction sep xs rule: join.induct)
  case (1 sep)
  then show ?case by simp
next
  case (2 sep s)
  then show ?case by simp
next
  case (3 sep s t ss)
  show ?case
  proof (cases "x = s")
    case True
    then show ?thesis by (simp add: sublist_append)
  next
    case False
    with 3 have "sublist x (join sep (t # ss))" by simp
    then show ?thesis by (simp add: sublist_append)
  qed
qed

lemma body_includes_property:
  "kv \<in> set kvs \<Longrightarrow> sublist (serialize_property kv) (req_body (make_request kvs))"
proof -
  assume "kv \<in> set kvs"
  then have "sublist (serialize_property kv) (join '','' (map serialize_property kvs))"
    by (intro join_includes) simp
  then show ?thesis
    unfolding make_request_def json_stringify_def
    by (simp add: sublist_append sublist_Cons_right)
qed

text \<open>
  Claim C2, as amended. When the form is complete, a field whose control value does not
  parse as a number is not rejected: the request is sent in exactly the runs that enter
  \<^verbatim>\<open>try\<close>, whatever the field holds; the field is in the object with the value
  not-a-number, and the body sent holds the field as \<^verbatim>\<open>"key":null\<close>.
\<close>

theorem nan_field_sent_as_null:
  assumes "inputData (form b) = Inr kvs" "(key, i, p) \<in> set input_fields"
    "form b i = Some s" "parse p s = NaN"
  shows "(FetchCall (make_request kvs) \<in> set (handler b) \<longleftrightarrow> snd (before_try b) = None)
       \<and> (key, NaN) \<in> set kvs
       \<and> sublist (dquote @ key @ dquote @ '':null'') (req_body (make_request kvs))"
proof -
  from assms have m: "(key, NaN) \<in> set kvs"
    unfolding inputData_def using gather_member [of "form b" input_fields kvs key i p s] by simp
  from body_includes_property [OF m]
  have "sublist (dquote @ key @ dquote @ '':null'') (req_body (make_request kvs))"
    by (simp add: serialize_property_def serialize_number_def)
  with m request_sent_iff [OF assms(1)] show ?thesis by simp
qed

lemma parseFloat_abc: "parseFloat ''abc'' = NaN"
  by code_simp

lemma nan_form_defined: "\<exists>kvs. inputData nan_form = Inr kvs"
  unfolding inputData_def by (rule gather_defined) (simp add: nan_form_def)

lemma nan_before_try: "snd (before_try nan_browser) = None"
  by (simp add: before_try_completes nan_browser_def demo_browser_def)

text \<open>The control \<^verbatim>\<open>failure-rate\<close> holds \<^verbatim>\<open>abc\<close>, every other control \<^verbatim>\<open>1\<close>.\<close>

theorem nan_field_sent_as_null_witness:
  "\<exists>kvs. inputData (form nan_browser) = Inr kvs
     \<and> FetchCall (make_request kvs) \<in> set (handler nan_browser)
     \<and> (''failure_rate_pct'', NaN) \<in> set kvs
     \<and> sublist (dquote @ ''failure_rate_pct'' @ dquote @ '':null'') (req_body (make_request kvs))"
proof -
  have f: "form nan_browser = nan_form" by (simp add: nan_browser_def)
  from nan_form_defined f obtain kvs where k: "inputData (form nan_browser) = Inr kvs" by auto
  have "(''failure_rate_pct'', ''failure-rate'', ParseFloat) \<in> set input_fields"
    by (simp add: input_fields_def)
  moreover have "form nan_browser ''failure-rate'' = Some ''abc''"
    by (simp add: f nan_form_def)
  moreover have "parse ParseFloat ''abc'' = NaN"
    by (simp add: parse_def parseFloat_abc)
  ultimately show ?thesis
    using nan_field_sent_as_null [OF k] k nan_before_try by blast
qed

lemma parseFloat_1: "parseFloat ''1'' = Fin 1"
  by code_simp

lemma parseInt_1: "parseInt ''1'' = Fin 1"
  by code_simp

lemma serialize_1: "serialize_number (Fin 1) = ''1''"
  by code_simp

lemma nan_inputData:
  "inputData nan_form
     = Inr (map (\<lambda>(k, i, p). (k, parse p (if i = ''failure-rate'' then ''abc'' else ''1''))) input_fields)"
  unfolding inputData_def by (rule gather_total) (simp add: nan_form_def)

lemma nan_body_eq:
  "json_stringify (map (\<lambda>(k, i, p). (k, parse p (if i = ''failure-rate'' then ''abc'' else ''1''))) input_fields)
     = nan_body"
  by (simp add: json_stringify_def nan_body_def input_fields_def spec_keys_def
      serialize_property_def serialize_number_def is_infinite_def parse_def
      parseFloat_abc parseFloat_1 parseInt_1 serialize_1 [unfolded serialize_number_def is_infinite_def, simplified])

lemma nan_body_text: "\<not> sublist ''NaN'' nan_body \<and> sublist (dquote @ ''failure_rate_pct'' @ dquote @ '':null'') nan_body"
  by code_simp

text \<open>
  \<^verbatim>\<open>JSON.stringify\<close> writes a not-a-number as \<^verbatim>\<open>null\<close>: with \<^verbatim>\<open>abc\<close> in the
  first control, the body that is sent holds the field as \<^verbatim>\<open>null\<close> and holds no
  \<^verbatim>\<open>NaN\<close> anywhere.
\<close>

theorem nan_not_forwarded_counterexample:
  "\<exists>kvs. inputData (form nan_browser) = Inr kvs
     \<and> FetchCall (make_request kvs) \<in> set (handler nan_browser)
     \<and> (''failure_rate_pct'', NaN) \<in> set kvs
     \<and> req_body (make_request kvs) = nan_body
     \<and> \<not> sublist ''NaN'' nan_body
     \<and> sublist (dquote @ ''failure_rate_pct'' @ dquote @ '':null'') nan_body"
proof -
  let ?kvs = "map (\<lambda>(k, i, p). (k, parse p (if i = ''failure-rate'' then ''abc'' else ''1''))) input_fields"
  have k: "inputData (form nan_browser) = Inr ?kvs"
    by (simp add: nan_browser_def nan_inputData)
  have "(''failure_rate_pct'', NaN) \<in> set ?kvs"
    by (simp add: input_fields_def parse_def parseFloat_abc)
  moreover have "req_body (make_request ?kvs) = nan_body"
    by (simp add: make_request_def nan_body_eq)
  ultimately show ?thesis
    using k request_sent [OF nan_before_try k] nan_body_text by blast
qed

subsection \<open>Integers are rounded exactly and printed as their digits\<close>

lemma bitlen_one: "bitlen 1 = 1"
  using bitlen_twopow_add_eq [of 0 0] by simp

lemma bitlen_pos: "0 < m \<Longrightarrow> 1 \<le> bitlen m"
  using bitlen_eq_zero_iff [of m] bitlen_nonneg [of m] by linarith

lemma ilog2_ratio_int: "0 < m \<Longrightarrow> ilog2_ratio m 1 = bitlen m - 1"
  using bitlen_bounds [of m] bitlen_pos [of m]
  by (simp add: ilog2_ratio_def bitlen_one)

lemma round_half_even_div_one: "round_half_even_div a 1 = a"
  by (simp add: round_half_even_div_def)

lemma round_ratio_safe:
  assumes "0 < m" "m < 2 ^ 53"
  shows "round_ratio neg m 1 = Fin ((if neg then - 1 else 1) * of_int m)"
proof -
  define e where "e = bitlen m - 1"
  from assms(1) have e0: "0 \<le> e" unfolding e_def using bitlen_pos [of m] by simp
  from assms(2) have "bitlen m \<le> 53" by (simp add: bitlen_le_iff_power)
  then have e52: "e \<le> 52" unfolding e_def by simp
  have il: "ilog2_ratio m 1 = e" unfolding e_def by (rule ilog2_ratio_int [OF assms(1)])
  have m: "max e (- 1022) = e" using e0 by simp
  have nz: "m * 2 ^ nat (52 - e) \<noteq> 0" using assms(1) by simp
  have "(of_int (m * 2 ^ nat (52 - e)) :: rat) * pow_int 2 (e - 52) = of_int m"
  proof (cases "e = 52")
    case True
    then show ?thesis by (simp add: pow_int_def)
  next
    case False
    with e52 have "e - 52 < 0" by simp
    then show ?thesis by (simp add: pow_int_def)
  qed
  then have v: "(if neg then - 1 else 1) * (of_int (m * 2 ^ nat (52 - e)) :: rat) * pow_int 2 (e - 52)
      = (if neg then - 1 else 1) * of_int m"
    by (simp add: mult.assoc)
  show ?thesis
    unfolding round_ratio_def il m Let_def
    using e52 nz v by (simp add: round_half_even_div_one)
qed

lemma round_ratio_large:
  assumes "2 ^ 53 \<le> m"
  shows "integral (round_ratio neg m 1)"
proof -
  define e where "e = bitlen m - 1"
  from assms have m0: "0 < m" by (rule less_le_trans [rotated]) simp
  from assms have "54 \<le> bitlen m" by (simp add: bitlen_ge_iff_power)
  then have e53: "53 \<le> e" unfolding e_def by simp
  have il: "ilog2_ratio m 1 = e" unfolding e_def by (rule ilog2_ratio_int [OF m0])
  have m: "max e (- 1022) = e" using e53 by simp
  have p: "pow_int 2 (e - 52) = of_int (2 ^ nat (e - 52))" using e53 by (simp add: pow_int_def)
  show ?thesis
    unfolding round_ratio_def il m Let_def p
    using e53 by (simp add: integral_def flip: of_int_mult of_int_minus)
qed

lemma double_of_int_safe:
  assumes "\<bar>m\<bar> < 2 ^ 53"
  shows "double_of_rat (of_int m) = Fin (of_int m)"
proof (cases "m = 0")
  case True
  then show ?thesis by (simp add: double_of_rat_def)
next
  case False
  then have "0 < \<bar>m\<bar>" by simp
  from round_ratio_safe [OF this assms, of "m < 0"] False show ?thesis
    by (simp add: double_of_rat_def)
qed

lemma double_of_int_integral: "integral (double_of_rat (of_int m))"
proof (cases "\<bar>m\<bar> < 2 ^ 53")
  case True
  then show ?thesis by (simp add: double_of_int_safe integral_def)
next
  case False
  then have "2 ^ 53 \<le> \<bar>m\<bar>" by simp
  from round_ratio_large [OF this, of "m < 0"] False show ?thesis
    by (auto simp: double_of_rat_def)
qed

lemma parseInt_cases:
  "parseInt s = NaN \<or> parseInt s = NegZero \<or> parseInt s = Fin 0
   \<or> (\<exists>m. m \<noteq> 0 \<and> parseInt s = double_of_rat (of_int m))"
proof -
  obtain neg t where sign: "parse_sign (trim_start s) = (neg, t)"
    by (cases "parse_sign (trim_start s)")
  define hex where "hex = (prefix ''0x'' t \<or> prefix ''0X'' t)"
  define ds where "ds = (if hex then takeWhile is_hex_digit (drop 2 t) else takeWhile is_digit t)"
  define m where "m = radix_value (if hex then 16 else 10) ds"
  have p: "parseInt s =
      (if ds = [] then NaN
       else if m = 0 then (if neg then NegZero else Fin 0)
       else double_of_rat (of_int (if neg then - m else m)))"
    unfolding parseInt_def sign Let_def prod.case hex_def ds_def m_def ..
  show ?thesis
  proof (cases "ds = [] \<or> m = 0")
    case True
    with p show ?thesis by auto
  next
    case False
    then have "(if neg then - m else m) \<noteq> 0" by simp
    moreover from False p have "parseInt s = double_of_rat (of_int (if neg then - m else m))"
      by simp
    ultimately show ?thesis by blast
  qed
qed

lemma parseInt_integral: "integral (parseInt s)"
  using parseInt_cases [of s] double_of_int_integral by (auto simp: integral_def)

lemma floor_log_nonneg: "0 \<le> floor_log b n"
  by (induction b n rule: floor_log.induct) (subst floor_log.simps, simp)

lemma floor_log_bounds:
  "2 \<le> b \<Longrightarrow> 1 \<le> n \<Longrightarrow> b ^ nat (floor_log b n) \<le> n \<and> n < b ^ nat (floor_log b n + 1)"
proof (induction b n rule: floor_log.induct)
  case (1 b n)
  show ?case
  proof (cases "n < b")
    case True
    with "1.prems" show ?thesis by (subst (1 2) floor_log.simps) simp
  next
    case False
    with "1.prems" have "0 < n div b"
      using pos_imp_zdiv_pos_iff [of b n] by simp
    then have d: "1 \<le> n div b" by simp
    from False "1.prems" have fl: "floor_log b n = 1 + floor_log b (n div b)"
      by (subst floor_log.simps) simp
    from "1.IH" False "1.prems" d
    have ih: "b ^ nat (floor_log b (n div b)) \<le> n div b"
      "n div b < b ^ nat (floor_log b (n div b) + 1)" by auto
    have nn: "0 \<le> floor_log b (n div b)" by (rule floor_log_nonneg)
    have b0: "0 < b" using "1.prems" by simp
    have e: "b * (n div b) + n mod b = n" by simp
    have r: "0 \<le> n mod b" "n mod b < b" using b0 by simp_all
    have "b * b ^ nat (floor_log b (n div b)) \<le> b * (n div b)"
      using ih(1) b0 by simp
    also have "\<dots> \<le> n" using e r(1) by linarith
    finally have lower: "b ^ nat (1 + floor_log b (n div b)) \<le> n"
      using nn by (simp add: nat_add_distrib)
    have "n div b + 1 \<le> b ^ nat (floor_log b (n div b) + 1)" using ih(2) by simp
    then have "b * (n div b + 1) \<le> b * b ^ nat (floor_log b (n div b) + 1)"
      using b0 by simp
    moreover have "b * (n div b + 1) = b * (n div b) + b" by (simp add: algebra_simps)
    then have "n < b * (n div b + 1)" using e r(2) by linarith
    ultimately have upper: "n < b ^ nat (1 + floor_log b (n div b) + 1)"
      using nn by (simp add: nat_add_distrib)
    from lower upper fl show ?thesis by simp
  qed
qed

lemma decimal_times_ten: "1 \<le> s \<Longrightarrow> decimal (s * 10) = decimal s @ ''0''"
  using decimal_step [of "s * 10"] by (simp add: digit_char_0)

lemma decimal_times_power: "1 \<le> s \<Longrightarrow> decimal (s * 10 ^ j) = decimal s @ zeros j"
proof (induction j)
  case 0
  then show ?case by (simp add: zeros_def)
next
  case (Suc j)
  have "(1 :: int) * 1 \<le> s * 10 ^ j"
    using Suc.prems by (intro mult_mono) simp_all
  then have p: "1 \<le> s * 10 ^ j" by simp
  have z: "zeros j @ ''0'' = zeros (Suc j)"
    by (simp add: zeros_def replicate_append_same)
  have "decimal (s * 10 ^ Suc j) = decimal ((s * 10 ^ j) * 10)" by (simp add: mult_ac)
  also have "\<dots> = decimal (s * 10 ^ j) @ ''0''" using p by (rule decimal_times_ten)
  also have "\<dots> = decimal s @ zeros j @ ''0''" using Suc by simp
  finally show ?case unfolding z .
qed

lemma length_decimal: "0 \<le> n \<Longrightarrow> length (decimal n) = nat (floor_log 10 n) + 1"
proof (induction n rule: decimal.induct)
  case (1 n)
  show ?case
  proof (cases "n < 10")
    case True
    then show ?thesis by (simp add: decimal_digit) (subst floor_log.simps, simp)
  next
    case False
    then have fl: "floor_log 10 n = 1 + floor_log 10 (n div 10)"
      by (subst floor_log.simps) simp
    from False "1.prems" "1.IH" have "length (decimal (n div 10)) = nat (floor_log 10 (n div 10)) + 1"
      by simp
    with False fl floor_log_nonneg [of 10 "n div 10"] show ?thesis
      by (simp add: decimal_step nat_add_distrib)
  qed
qed

lemma ilog_of_int: "1 \<le> m \<Longrightarrow> ilog b (of_int m) = floor_log b m"
  by (simp add: ilog_def)

lemma shortest_digits_step:
  assumes m: "1 \<le> m" "m < 2 ^ 52" and k: "1 \<le> k" "int k \<le> floor_log 10 m + 1"
  defines "j \<equiv> nat (floor_log 10 m + 1 - int k)"
  shows "shortest_digits (of_int m) (floor_log 10 m + 1) k (Suc fuel) =
           (if m div 10 ^ j * 10 ^ j = m then (m div 10 ^ j, floor_log 10 m + 1)
            else shortest_digits (of_int m) (floor_log 10 m + 1) (Suc k) fuel)"
    and "1 \<le> m div 10 ^ j"
proof -
  define lo where "lo = m div 10 ^ j"
  have scale: "pow_int 10 (floor_log 10 m + 1 - int k) = of_int (10 ^ j)"
    using k(2) by (simp add: pow_int_def j_def)
  have fl: "\<lfloor>(of_int m :: rat) / of_int (10 ^ j)\<rfloor> = lo"
    unfolding lo_def by (rule floor_divide_of_int_eq)
  have "j \<le> nat (floor_log 10 m)" using k(1) by (simp add: j_def)
  then have "(10 :: int) ^ j \<le> 10 ^ nat (floor_log 10 m)"
    by (simp add: power_increasing)
  also have "\<dots> \<le> m" using floor_log_bounds [of 10 m] m(1) by simp
  finally have pm: "10 ^ j \<le> m" .
  then have "0 < lo" unfolding lo_def using pos_imp_zdiv_pos_iff [of "10 ^ j" m] by simp
  then show lo1: "1 \<le> m div 10 ^ j" unfolding lo_def by simp
  have e: "lo * 10 ^ j + m mod 10 ^ j = m" unfolding lo_def by (rule div_mult_mod_eq)
  have r: "0 \<le> m mod 10 ^ j" "m mod 10 ^ j < 10 ^ j" by simp_all
  have lo_le: "lo * 10 ^ j \<le> m" using e r(1) by linarith
  have hi_eq: "(lo + 1) * 10 ^ j = lo * 10 ^ j + 10 ^ j" by (simp add: algebra_simps)
  have hi_gt: "m < (lo + 1) * 10 ^ j" using e r(2) hi_eq by linarith
  have "(2 :: int) ^ 53 = 2 * 2 ^ 52" by simp
  with m(2) pm lo_le hi_eq have hi_safe: "(lo + 1) * 10 ^ j < 2 ^ 53" by linarith
  have lo_pos: "0 < lo * 10 ^ j" using \<open>0 < lo\<close> by simp
  have lo_d: "double_of_rat (of_int lo * of_int (10 ^ j)) = Fin (of_int (lo * 10 ^ j))"
    using double_of_int_safe [of "lo * 10 ^ j"] lo_pos lo_le hi_gt hi_safe by simp
  have hi_d: "double_of_rat (of_int (lo + 1) * of_int (10 ^ j)) = Fin (of_int ((lo + 1) * 10 ^ j))"
    using double_of_int_safe [of "(lo + 1) * 10 ^ j"] hi_gt hi_safe m(1) by simp
  have lo_ok: "(double_of_rat (of_int lo * of_int (10 ^ j)) = Fin (of_int m)) = (lo * 10 ^ j = m)"
    unfolding lo_d by (simp only: jsnum.inject of_int_eq_iff)
  have hi_ne: "(lo + 1) * 10 ^ j \<noteq> m" using hi_gt by simp
  have hi_ok: "(double_of_rat (of_int (lo + 1) * of_int (10 ^ j)) = Fin (of_int m)) = False"
    using hi_ne unfolding hi_d jsnum.inject of_int_eq_iff by simp
  show "shortest_digits (of_int m) (floor_log 10 m + 1) k (Suc fuel) =
           (if m div 10 ^ j * 10 ^ j = m then (m div 10 ^ j, floor_log 10 m + 1)
            else shortest_digits (of_int m) (floor_log 10 m + 1) (Suc k) fuel)"
    unfolding shortest_digits.simps Let_def scale fl lo_ok hi_ok
    by (simp add: lo_def)
qed

lemma shortest_digits_exact:
  assumes m: "1 \<le> m" "m < 2 ^ 52"
  shows "1 \<le> k \<Longrightarrow> int k \<le> floor_log 10 m + 1 \<Longrightarrow> nat (floor_log 10 m + 1) - k < fuel \<Longrightarrow>
         \<exists>s j. shortest_digits (of_int m) (floor_log 10 m + 1) k fuel = (s, floor_log 10 m + 1)
               \<and> 1 \<le> s \<and> s * 10 ^ j = m"
proof (induction fuel arbitrary: k)
  case 0
  then show ?case by simp
next
  case (Suc fuel)
  let ?j = "nat (floor_log 10 m + 1 - int k)"
  note step = shortest_digits_step(1) [OF m Suc.prems(1,2), of fuel]
    shortest_digits_step(2) [OF m Suc.prems(1,2)]
  show ?case
  proof (cases "m div 10 ^ ?j * 10 ^ ?j = m")
    case True
    with step show ?thesis by auto
  next
    case False
    have "int k \<noteq> floor_log 10 m + 1"
    proof
      assume "int k = floor_log 10 m + 1"
      then have "?j = 0" by simp
      with False show False by simp
    qed
    with Suc.prems have "1 \<le> Suc k" "int (Suc k) \<le> floor_log 10 m + 1"
      "nat (floor_log 10 m + 1) - Suc k < fuel" by auto
    from Suc.IH [OF this] step(1) False show ?thesis by simp
  qed
qed

lemma positive_to_string_int:
  assumes m: "1 \<le> m" "m < 2 ^ 52"
  shows "positive_to_string (of_int m) = decimal m"
proof -
  define nd where "nd = floor_log 10 m + 1"
  have nn: "0 \<le> floor_log 10 m" by (rule floor_log_nonneg)
  have "(10 :: int) ^ nat (floor_log 10 m) \<le> m" using floor_log_bounds [of 10 m] m(1) by simp
  also have "m < 10 ^ 16" using m(2) by simp
  finally have "(10 :: int) ^ nat (floor_log 10 m) < 10 ^ 16" .
  then have "nat (floor_log 10 m) < 16"
    by (rule power_less_imp_less_exp [of 10, rotated]) simp
  then have nd16: "nd \<le> 16" unfolding nd_def by simp
  have "\<exists>s j. shortest_digits (of_int m) nd 1 16 = (s, nd) \<and> 1 \<le> s \<and> s * 10 ^ j = m"
    unfolding nd_def
    by (rule shortest_digits_exact [OF m]) (use nn nd16 in \<open>simp_all add: nd_def\<close>)
  then obtain s j where sd: "shortest_digits (of_int m) nd 1 16 = (s, nd)"
      and s: "1 \<le> s" and sj: "s * 10 ^ j = m" by blast
  have dm: "decimal m = decimal s @ zeros j"
    using decimal_times_power [OF s, of j] sj by simp
  have "length (decimal m) = nat (floor_log 10 m) + 1"
    using m(1) by (intro length_decimal) simp
  then have len: "int (length (decimal s)) + int j = nd"
    unfolding dm nd_def using nn by (simp add: zeros_def)
  have nd': "number_digits (of_int m) = (decimal s, nd)"
    unfolding number_digits_def using m(1) sd by (simp add: ilog_of_int nd_def)
  have "int (length (decimal s)) \<le> nd" "nd \<le> 21" "nat (nd - int (length (decimal s))) = j"
    using len nd16 by simp_all
  then show ?thesis
    unfolding positive_to_string_def nd' dm by simp
qed

lemma number_to_string_int:
  assumes "\<bar>m\<bar> < 2 ^ 52"
  shows "number_to_string (Fin (of_int m)) = (if m < 0 then ''-'' else '''') @ decimal \<bar>m\<bar>"
proof -
  consider "m = 0" | "0 < m" | "m < 0" by linarith
  then show ?thesis
  proof cases
    case 1
    then show ?thesis by (simp add: number_to_string_def decimal_digit digit_char_0)
  next
    case 2
    with assms positive_to_string_int [of m] show ?thesis
      by (simp add: number_to_string_def)
  next
    case 3
    with assms positive_to_string_int [of "- m"] show ?thesis
      by (simp add: number_to_string_def)
  qed
qed

subsection \<open>The keys of the request and its integer fields\<close>

lemma input_fields_keys: "map fst input_fields = spec_keys"
  by (simp add: input_fields_def spec_keys_def)

lemma spec_keys_distinct: "distinct spec_keys"
  by code_simp

lemma spec_keys_length: "length spec_keys = 25"
  by (simp add: spec_keys_def)

lemma integer_fields_parser:
  "(key, i, p) \<in> set input_fields \<Longrightarrow> key \<in> set integer_keys \<Longrightarrow> p = ParseInt"
  by (auto simp: input_fields_def integer_keys_def)

lemma serialize_integer:
  "\<bar>n\<bar> < 2 ^ 52 \<Longrightarrow> serialize_number (Fin (of_int n)) = (if n < 0 then ''-'' else '''') @ decimal \<bar>n\<bar>"
  using number_to_string_int [of n] by (simp add: serialize_number_def is_infinite_def)

text \<open>
  Claim C1, as amended. When the form is complete the request is sent, in exactly the runs
  that enter \<^verbatim>\<open>try\<close>, with the
  serialization of \<^verbatim>\<open>inputData\<close> as its body, and the keys of that object are exactly the
  25 keys of a SimulationRequest, each once, in the order of the specification. The value
  of each of the three integer fields has no fractional part (it is not-a-number, written
  \<^verbatim>\<open>null\<close>, or an infinity, or an integer), and an integer of magnitude below \<open>2^52\<close>
  is written as its decimal digits after an optional minus sign.
\<close>

theorem request_body_fields:
  assumes "inputData (form b) = Inr kvs"
  shows "(FetchCall (make_request kvs) \<in> set (handler b) \<longleftrightarrow> snd (before_try b) = None)
       \<and> req_body (make_request kvs) = json_stringify kvs
       \<and> map fst kvs = spec_keys \<and> distinct spec_keys \<and> length spec_keys = 25
       \<and> (\<forall>key v. key \<in> set integer_keys \<and> (key, v) \<in> set kvs \<longrightarrow>
             integral v
             \<and> (v = NaN \<longrightarrow> serialize_number v = ''null'')
             \<and> (\<forall>n. v = Fin (of_int n) \<and> \<bar>n\<bar> < 2 ^ 52 \<longrightarrow>
                   serialize_number v = (if n < 0 then ''-'' else '''') @ decimal \<bar>n\<bar>))"
proof -
  have keys: "map fst kvs = spec_keys"
    using gather_keys [of "form b" input_fields kvs] assms
    by (simp add: inputData_def input_fields_keys)
  have ints: "integral v" if "key \<in> set integer_keys" "(key, v) \<in> set kvs" for key v
  proof -
    from gather_values [of "form b" input_fields kvs key v] assms that(2)
    obtain i p s where "(key, i, p) \<in> set input_fields" "v = parse p s"
      by (auto simp: inputData_def)
    with integer_fields_parser [OF this(1) that(1)] show ?thesis
      by (simp add: parse_def parseInt_integral)
  qed
  have "serialize_number NaN = ''null''" by (simp add: serialize_number_def)
  with keys ints request_sent_iff [OF assms] serialize_integer show ?thesis
    by (auto simp: make_request_def spec_keys_distinct spec_keys_length)
qed

lemma integer_form_defined: "\<exists>kvs. inputData integer_form = Inr kvs"
  unfolding inputData_def by (rule gather_defined) (simp add: integer_form_def)

lemma integer_before_try: "snd (before_try integer_browser) = None"
  by (simp add: before_try_completes integer_browser_def demo_browser_def)

lemma parseInt_fraction: "parseInt ''2.7'' = Fin (of_int 2)"
  by code_simp

lemma decimal_2: "decimal 2 = ''2''"
  by code_simp

text \<open>The control \<^verbatim>\<open>rounds-min\<close> holds \<^verbatim>\<open>2.7\<close>: the body carries \<^verbatim>\<open>2\<close>.\<close>

theorem request_body_fields_witness:
  "\<exists>kvs. inputData (form integer_browser) = Inr kvs
     \<and> FetchCall (make_request kvs) \<in> set (handler integer_browser)
     \<and> map fst kvs = spec_keys
     \<and> (''rounds_min'', parseInt ''2.7'') \<in> set kvs
     \<and> serialize_number (parseInt ''2.7'') = ''2''"
proof -
  have f: "form integer_browser = integer_form" by (simp add: integer_browser_def)
  from integer_form_defined f obtain kvs where k: "inputData (form integer_browser) = Inr kvs"
    by auto
  have "(''rounds_min'', ''rounds-min'', ParseInt) \<in> set input_fields"
    by (simp add: input_fields_def)
  moreover have "form integer_browser ''rounds-min'' = Some ''2.7''"
    by (simp add: f integer_form_def)
  ultimately have mem: "(''rounds_min'', parseInt ''2.7'') \<in> set kvs"
    using gather_member [of "form integer_browser" input_fields kvs "''rounds_min''" "''rounds-min''" ParseInt "''2.7''"] k
    by (simp add: inputData_def parse_def)
  have key: "''rounds_min'' \<in> set integer_keys" by (simp add: integer_keys_def)
  have small: "\<bar>2 :: int\<bar> < 2 ^ 52" by simp
  from request_body_fields [OF k] key mem integer_before_try
  have "FetchCall (make_request kvs) \<in> set (handler integer_browser)" "map fst kvs = spec_keys"
    "\<forall>n. parseInt ''2.7'' = Fin (of_int n) \<and> \<bar>n\<bar> < 2 ^ 52 \<longrightarrow>
        serialize_number (parseInt ''2.7'') = (if n < 0 then ''-'' else '''') @ decimal \<bar>n\<bar>"
    by blast+
  with parseInt_fraction small have "FetchCall (make_request kvs) \<in> set (handler integer_browser)"
    "map fst kvs = spec_keys" "serialize_number (parseInt ''2.7'') = decimal 2"
    by (auto simp del: of_int_numeral)
  with k mem show ?thesis unfolding decimal_2 by blast
qed

text \<open>The object sent has 25 distinct keys, not 24.\<close>

theorem twenty_five_keys_counterexample:
  "\<exists>kvs. inputData (form (demo_browser moic_example_reply)) = Inr kvs
     \<and> distinct (map fst kvs) \<and> length kvs = 25 \<and> length kvs \<noteq> 24"
proof -
  let ?kvs = "map (\<lambda>(k, i, p). (k, parse p ''1'')) input_fields"
  have "map fst ?kvs = spec_keys"
    unfolding input_fields_keys [symmetric] by (simp add: case_prod_unfold)
  then have "distinct (map fst ?kvs)" "length ?kvs = 25"
    using spec_keys_distinct spec_keys_length by (simp_all add: input_fields_def)
  with demo_inputData [of moic_example_reply] show ?thesis by auto
qed

end
